theory Spec2Isabelle
  imports Complex_Main "HOL-Library.AList"
begin

section \<open>Python values, exceptions and string operations\<close>

text \<open>
  The scripts handle Python objects built by \<^verbatim>\<open>json.loads\<close> and by dict literals:
  \<^verbatim>\<open>None\<close>, booleans, integers, floats, strings, lists and dicts. A dict is an
  association list in insertion order with distinct keys. A float is kept as the text
  of its literal: no claim computes with one. A string is a list of characters, each
  standing for one code point in the range 0..255.
\<close>

datatype pyval =
    PyNone
  | PyBool bool
  | PyInt int
  | PyFloat string
  | PyStr string
  | PyList "pyval list"
  | PyDict "(string \<times> pyval) list"

text \<open>
  The exceptions the modelled code raises or catches. \<open>JSONDecodeError\<close> is what
  \<^verbatim>\<open>json.loads\<close> raises on a text that is not JSON; \<open>ClientError\<close> is botocore's,
  with the error code of its response; \<open>AttributeError\<close> is raised by \<^verbatim>\<open>.get\<close> on an
  object that has no such method, \<open>ValueError\<close> by unpacking a list of the wrong length.
\<close>

datatype exn =
    JSONDecodeError
  | ClientError string
  | AttributeError
  | ValueError
  | OtherException string

text \<open>\<^verbatim>\<open>d.get(k, default)\<close> on a dict.\<close>

definition dict_get :: "(string \<times> pyval) list \<Rightarrow> string \<Rightarrow> pyval \<Rightarrow> pyval" where
  "dict_get d k dflt = (case map_of d k of None \<Rightarrow> dflt | Some v \<Rightarrow> v)"

text \<open>
  \<^verbatim>\<open>str.isspace\<close> on one character, which is also what the regular expression
  \<^verbatim>\<open>\s\<close> matches on a \<^verbatim>\<open>str\<close>: in the range 0..255 these are the code points 9..13,
  28..32, 133 and 160.
\<close>

definition py_isspace :: "char \<Rightarrow> bool" where
  "py_isspace c =
     (let n = (of_char c :: nat)
      in (9 \<le> n \<and> n \<le> 13) \<or> (28 \<le> n \<and> n \<le> 32) \<or> n = 133 \<or> n = 160)"

text \<open>\<^verbatim>\<open>s.strip(chars)\<close> and \<^verbatim>\<open>s.strip()\<close>: both ends lose every leading character of the set.\<close>

definition str_strip_chars :: "string \<Rightarrow> string \<Rightarrow> string" where
  "str_strip_chars s chars =
     rev (dropWhile (\<lambda>c. c \<in> set chars) (rev (dropWhile (\<lambda>c. c \<in> set chars) s)))"

definition str_strip :: "string \<Rightarrow> string" where
  "str_strip s = rev (dropWhile py_isspace (rev (dropWhile py_isspace s)))"

text \<open>\<^verbatim>\<open>s.find(c)\<close> and \<^verbatim>\<open>s.rfind(c)\<close> for a one-character \<open>c\<close>: an index, or \<open>-1\<close>.\<close>

fun str_find :: "string \<Rightarrow> char \<Rightarrow> int" where
  "str_find [] c = - 1"
| "str_find (x # xs) c =
     (if x = c then 0 else (let r = str_find xs c in if r = - 1 then - 1 else r + 1))"

definition str_rfind :: "string \<Rightarrow> char \<Rightarrow> int" where
  "str_rfind s c =
     (let r = str_find (rev s) c in if r = - 1 then - 1 else int (length s) - 1 - r)"

text \<open>
  The slice \<^verbatim>\<open>s[a:b]\<close>: a negative index counts from the end, and both are clamped
  to the string.
\<close>

definition py_slice :: "string \<Rightarrow> int \<Rightarrow> int \<Rightarrow> string" where
  "py_slice s a b =
     (let n = int (length s);
          lo = (if a < 0 then max 0 (n + a) else min a n);
          hi = (if b < 0 then max 0 (n + b) else min b n)
      in take (nat (hi - lo)) (drop (nat lo) s))"

definition str_startswith :: "string \<Rightarrow> string \<Rightarrow> bool" where
  "str_startswith s p = (take (length p) s = p)"

text \<open>\<^verbatim>\<open>s.split(c, 1)\<close>: the string itself when \<open>c\<close> is absent, else the two parts around its first occurrence.\<close>

definition str_split1 :: "string \<Rightarrow> char \<Rightarrow> string list" where
  "str_split1 s c =
     (if c \<in> set s then [takeWhile (\<lambda>x. x \<noteq> c) s, tl (dropWhile (\<lambda>x. x \<noteq> c) s)] else [s])"

section \<open>The two regular-expression substitutions of parse.py\<close>

text \<open>
  \<^verbatim>\<open>re.sub(r'^```(?:json)?\s*', '', response, flags=re.MULTILINE)\<close>.
  A match starts at the beginning of a line (the start of the text, or right after a
  newline of the text), takes three backticks, then \<^verbatim>\<open>json\<close> when it is there, then
  every whitespace character that follows. \<open>match_open_fence\<close> gives the matched text and
  what is left. The search goes on right after a match; whether that place begins a line
  is decided by the character before it, which is the last one matched.
\<close>

definition match_open_fence :: "string \<Rightarrow> (string \<times> string) option" where
  "match_open_fence s =
     (if take 3 s = ''```'' then
        (let tag = (if take 4 (drop 3 s) = ''json'' then ''json'' else []);
             rest = drop (3 + length tag) s
         in Some (''```'' @ tag @ takeWhile py_isspace rest, dropWhile py_isspace rest))
      else None)"

lemma match_open_fence_shorter:
  "match_open_fence s = Some (m, rest) \<Longrightarrow> length rest < length s"
proof -
  assume a: "match_open_fence s = Some (m, rest)"
  then have t: "take 3 s = ''```''"
    by (auto simp: match_open_fence_def split: if_splits)
  then have "3 \<le> length s"
    by (metis length_take min.cobounded1 length_Cons list.size(3) numeral_3_eq_3)
  moreover have "length rest \<le> length s - 3"
    using a t length_dropWhile_le [of py_isspace "drop 3 s"]
      length_dropWhile_le [of py_isspace "drop 7 s"]
    by (auto simp: match_open_fence_def Let_def split: if_splits)
  ultimately show ?thesis by linarith
qed

function sub_open_fence :: "bool \<Rightarrow> string \<Rightarrow> string" where
  "sub_open_fence bol [] = []"
| "sub_open_fence bol (c # cs) =
     (case (if bol then match_open_fence (c # cs) else None) of
        Some (m, rest) \<Rightarrow> sub_open_fence (last m = CHR ''\<newline>'') rest
      | None \<Rightarrow> c # sub_open_fence (c = CHR ''\<newline>'') cs)"
  by pat_completeness auto
termination
  by (relation "measure (\<lambda>(bol, s). length s)")
    (auto split: if_splits dest: match_open_fence_shorter)

definition re_sub_open_fence :: "string \<Rightarrow> string" where
  "re_sub_open_fence s = sub_open_fence True s"

text \<open>
  \<^verbatim>\<open>re.sub(r'\s*```$', '', response, flags=re.MULTILINE)\<close>.
  A match at a position takes the whole run of whitespace there (a shorter run would
  be followed by whitespace, not by a backtick), then three backticks, and must end at
  the end of the text or right before a newline. \<open>match_close_fence\<close> gives what is left.
\<close>

definition match_close_fence :: "string \<Rightarrow> string option" where
  "match_close_fence s =
     (let r = dropWhile py_isspace s
      in if take 3 r = ''```'' \<and> (case drop 3 r of [] \<Rightarrow> True | d # _ \<Rightarrow> d = CHR ''\<newline>'')
         then Some (drop 3 r) else None)"

lemma match_close_fence_shorter:
  "match_close_fence s = Some rest \<Longrightarrow> length rest < length s"
proof -
  assume a: "match_close_fence s = Some rest"
  let ?r = "dropWhile py_isspace s"
  from a have t: "take 3 ?r = ''```''" and r: "rest = drop 3 ?r"
    by (auto simp: match_close_fence_def Let_def split: if_splits)
  from t have "3 \<le> length ?r"
    by (metis length_take min.cobounded1 length_Cons list.size(3) numeral_3_eq_3)
  with r length_dropWhile_le [of py_isspace s] show ?thesis by simp
qed

function sub_close_fence :: "string \<Rightarrow> string" where
  "sub_close_fence [] = []"
| "sub_close_fence (c # cs) =
     (case match_close_fence (c # cs) of
        Some rest \<Rightarrow> sub_close_fence rest
      | None \<Rightarrow> c # sub_close_fence cs)"
  by pat_completeness auto
termination
  by (relation "measure length") (auto dest: match_close_fence_shorter)

definition re_sub_close_fence :: "string \<Rightarrow> string" where
  "re_sub_close_fence s = sub_close_fence s"

section \<open>A model of \<^verbatim>\<open>json.loads\<close>\<close>

text \<open>
  \<^verbatim>\<open>json.loads\<close> belongs to Python's standard library, not to the repository. The
  functions of the repository below take the parser as a parameter \<open>loads\<close>, and
  \<open>json_loads\<close> is the instance used to evaluate them: the JSON grammar as the
  library's decoder reads it. Whitespace between tokens is space, tab, newline and
  carriage return only; a string may hold no raw control character; the escapes are
  the eight one-letter ones and \<^verbatim>\<open>\uXXXX\<close>; a number with a fraction or an exponent is
  a float; \<^verbatim>\<open>NaN\<close>, \<^verbatim>\<open>Infinity\<close> and \<^verbatim>\<open>-Infinity\<close> are accepted; a repeated key keeps
  its first place and its last value. Since a character of the model is a code point
  below 256, an escape \<^verbatim>\<open>\uXXXX\<close> above \<^verbatim>\<open>00FF\<close> names a string the model cannot
  hold, and \<open>json_loads\<close> rejects such a text. The library can also raise
  \<open>RecursionError\<close> (on deep nesting) and \<open>ValueError\<close> (on an integer beyond the
  interpreter's digit limit); \<open>json_loads\<close> has no such limits, and it is used below
  only at concrete short texts, where it agrees with the library. Every general
  statement is about an arbitrary parser \<open>loads\<close>, which may raise any exception
  (another one than \<open>JSONDecodeError\<close> is an \<open>OtherException\<close>).
\<close>

datatype token =
    T_lbrace | T_rbrace | T_lbrack | T_rbrack | T_colon | T_comma
  | T_str string | T_int int | T_float string
  | T_true | T_false | T_null | T_nan | T_inf | T_neginf

definition is_json_ws :: "char \<Rightarrow> bool" where
  "is_json_ws c = (c = CHR '' '' \<or> c = CHR 0x09 \<or> c = CHR ''\<newline>'' \<or> c = CHR 0x0D)"

definition is_digit :: "char \<Rightarrow> bool" where
  "is_digit c = (let n = (of_char c :: nat) in 48 \<le> n \<and> n \<le> 57)"

definition digit_val :: "char \<Rightarrow> nat" where
  "digit_val c = of_char c - 48"

definition hex_val :: "char \<Rightarrow> nat option" where
  "hex_val c =
     (let n = (of_char c :: nat)
      in if 48 \<le> n \<and> n \<le> 57 then Some (n - 48)
         else if 65 \<le> n \<and> n \<le> 70 then Some (n - 55)
         else if 97 \<le> n \<and> n \<le> 102 then Some (n - 87)
         else None)"

definition hex4 :: "string \<Rightarrow> nat option" where
  "hex4 ds =
     (if length ds = 4 \<and> list_all (\<lambda>d. hex_val d \<noteq> None) ds
      then Some (foldl (\<lambda>a d. 16 * a + the (hex_val d)) 0 ds) else None)"

definition unescape :: "char \<Rightarrow> char option" where
  "unescape e =
     (if e = CHR 0x22 then Some (CHR 0x22)
      else if e = CHR 0x5C then Some (CHR 0x5C)
      else if e = CHR ''/'' then Some (CHR ''/'')
      else if e = CHR ''b'' then Some (CHR 0x08)
      else if e = CHR ''f'' then Some (CHR 0x0C)
      else if e = CHR ''n'' then Some (CHR ''\<newline>'')
      else if e = CHR ''r'' then Some (CHR 0x0D)
      else if e = CHR ''t'' then Some (CHR 0x09)
      else None)"

text \<open>
  The body of a string literal, read from right after its opening quote: the decoded
  string and the text after the closing quote.
\<close>

fun scan_string :: "string \<Rightarrow> (string \<times> string) option" where
  "scan_string [] = None"
| "scan_string (c # cs) =
     (if c = CHR 0x22 then Some ([], cs)
      else if c = CHR 0x5C then
        (case cs of
           [] \<Rightarrow> None
         | e # cs' \<Rightarrow>
             (if e = CHR ''u'' then
                (case hex4 (take 4 cs') of
                   None \<Rightarrow> None
                 | Some n \<Rightarrow>
                     if n < 256
                     then map_option (\<lambda>(s, r). (char_of n # s, r)) (scan_string (drop 4 cs'))
                     else None)
              else
                (case unescape e of
                   None \<Rightarrow> None
                 | Some ch \<Rightarrow> map_option (\<lambda>(s, r). (ch # s, r)) (scan_string cs'))))
      else if (of_char c :: nat) < 32 then None
      else map_option (\<lambda>(s, r). (c # s, r)) (scan_string cs))"

text \<open>
  A number: an optional minus sign, an integer part (\<^verbatim>\<open>0\<close>, or a nonzero digit and
  more digits), an optional fraction (a dot and at least one digit) and an optional
  exponent. With neither fraction nor exponent it is an integer.
\<close>

definition scan_exponent :: "string \<Rightarrow> string \<times> string" where
  "scan_exponent s =
     (case s of
        [] \<Rightarrow> ([], s)
      | e # r \<Rightarrow>
          if e = CHR ''e'' \<or> e = CHR ''E'' then
            (let sg = (case r of [] \<Rightarrow> [] | x # _ \<Rightarrow> if x = CHR ''+'' \<or> x = CHR ''-'' then [x] else []);
                 r' = drop (length sg) r
             in case r' of
                  [] \<Rightarrow> ([], s)
                | y # _ \<Rightarrow>
                    if is_digit y then (e # sg @ takeWhile is_digit r', dropWhile is_digit r')
                    else ([], s))
          else ([], s))"

definition scan_fraction :: "string \<Rightarrow> string \<times> string" where
  "scan_fraction s =
     (case s of
        p # q # r \<Rightarrow>
          if p = CHR ''.'' \<and> is_digit q then (p # q # takeWhile is_digit r, dropWhile is_digit r)
          else ([], s)
      | _ \<Rightarrow> ([], s))"

definition scan_number :: "string \<Rightarrow> (token \<times> string) option" where
  "scan_number s =
     (let neg = (case s of [] \<Rightarrow> False | c # _ \<Rightarrow> c = CHR ''-'');
          s1 = (if neg then tl s else s)
      in case s1 of
           [] \<Rightarrow> None
         | d # ds \<Rightarrow>
             if \<not> is_digit d then None
             else
               (let ip = (if d = CHR ''0'' then [d] else d # takeWhile is_digit ds);
                    s2 = (if d = CHR ''0'' then ds else dropWhile is_digit ds);
                    (fp, s3) = scan_fraction s2;
                    (ep, s4) = scan_exponent s3
                in if fp = [] \<and> ep = []
                   then Some (T_int ((if neg then - 1 else 1) *
                                 int (foldl (\<lambda>a c. 10 * a + digit_val c) 0 ip)), s4)
                   else Some (T_float ((if neg then ''-'' else []) @ ip @ fp @ ep), s4)))"

lemma scan_string_shorter: "scan_string cs = Some (s, r) \<Longrightarrow> length r \<le> length cs"
proof (induction cs arbitrary: s r rule: scan_string.induct)
  case 1
  then show ?case by simp
next
  case (2 c cs)
  show ?case
  proof (cases "c = CHR 0x22")
    case True
    with "2.prems" show ?thesis by simp
  next
    case nq: False
    show ?thesis
    proof (cases "c = CHR 0x5C")
      case False
      with nq "2.prems" "2.IH"(3) show ?thesis
        by (fastforce split: if_splits)
    next
      case bs: True
      from bs nq "2.prems" obtain e cs' where cs: "cs = e # cs'"
        by (cases cs) auto
      show ?thesis
      proof (cases "e = CHR ''u''")
        case True
        with bs nq cs "2.prems" obtain n s' where
          h: "hex4 (take 4 cs') = Some n" "n < 256" "scan_string (drop 4 cs') = Some (s', r)"
          by (auto split: option.splits if_splits)
        from "2.IH"(1) [OF nq bs cs True h(1) h(2) h(3)] cs show ?thesis by simp
      next
        case False
        with bs nq cs "2.prems" obtain ch s' where
          h: "unescape e = Some ch" "scan_string cs' = Some (s', r)"
          by (auto split: option.splits)
        from "2.IH"(2) [OF nq bs cs False h(1) h(2)] cs show ?thesis by simp
      qed
    qed
  qed
qed

lemma scan_fraction_shorter: "scan_fraction s = (fp, r) \<Longrightarrow> length r \<le> length s"
  using length_dropWhile_le [of is_digit "drop 2 s"]
  by (auto simp: scan_fraction_def split: list.splits if_splits)

lemma scan_exponent_shorter: "scan_exponent s = (ep, r) \<Longrightarrow> length r \<le> length s"
proof -
  assume a: "scan_exponent s = (ep, r)"
  have "length (dropWhile is_digit (drop k s)) \<le> length s" for k
    using length_dropWhile_le [of is_digit "drop k s"] by simp
  from this [of 1] this [of 2] a show ?thesis
    by (auto simp: scan_exponent_def Let_def split: list.splits if_splits)
qed

lemma scan_number_shorter: "scan_number s = Some (t, r) \<Longrightarrow> length r < length s"
proof -
  assume a: "scan_number s = Some (t, r)"
  define s1 where "s1 = (if (case s of [] \<Rightarrow> False | c # _ \<Rightarrow> c = CHR ''-'') then tl s else s)"
  have l1: "length s1 \<le> length s" by (simp add: s1_def)
  from a obtain d ds where s1: "s1 = d # ds"
    by (cases s1) (auto simp: scan_number_def Let_def s1_def)
  define s2 where "s2 = (if d = CHR ''0'' then ds else dropWhile is_digit ds)"
  have l2: "length s2 \<le> length ds"
    using length_dropWhile_le [of is_digit ds] by (simp add: s2_def)
  obtain fp s3 where f: "scan_fraction s2 = (fp, s3)" by (cases "scan_fraction s2")
  obtain ep s4 where e: "scan_exponent s3 = (ep, s4)" by (cases "scan_exponent s3")
  from a s1 f e have "r = s4"
    by (auto simp: scan_number_def Let_def s1_def [symmetric] s2_def [symmetric] split: if_splits)
  with scan_fraction_shorter [OF f] scan_exponent_shorter [OF e] l1 l2 s1
  show ?thesis by simp
qed

text \<open>The text as a list of tokens, or \<open>None\<close> where no token starts.\<close>

function tokenize :: "string \<Rightarrow> token list option" where
  "tokenize [] = Some []"
| "tokenize (c # cs) =
     (if is_json_ws c then tokenize cs
      else if c = CHR ''{'' then map_option ((#) T_lbrace) (tokenize cs)
      else if c = CHR ''}'' then map_option ((#) T_rbrace) (tokenize cs)
      else if c = CHR ''['' then map_option ((#) T_lbrack) (tokenize cs)
      else if c = CHR '']'' then map_option ((#) T_rbrack) (tokenize cs)
      else if c = CHR '':'' then map_option ((#) T_colon) (tokenize cs)
      else if c = CHR '','' then map_option ((#) T_comma) (tokenize cs)
      else if c = CHR 0x22 then
        (case scan_string cs of
           None \<Rightarrow> None
         | Some (s, rest) \<Rightarrow> map_option ((#) (T_str s)) (tokenize rest))
      else if take 4 (c # cs) = ''null'' then map_option ((#) T_null) (tokenize (drop 3 cs))
      else if take 4 (c # cs) = ''true'' then map_option ((#) T_true) (tokenize (drop 3 cs))
      else if take 5 (c # cs) = ''false'' then map_option ((#) T_false) (tokenize (drop 4 cs))
      else
        (case scan_number (c # cs) of
           Some (t, rest) \<Rightarrow> map_option ((#) t) (tokenize rest)
         | None \<Rightarrow>
             if take 3 (c # cs) = ''NaN'' then map_option ((#) T_nan) (tokenize (drop 2 cs))
             else if take 8 (c # cs) = ''Infinity'' then map_option ((#) T_inf) (tokenize (drop 7 cs))
             else if take 9 (c # cs) = ''-Infinity'' then map_option ((#) T_neginf) (tokenize (drop 8 cs))
             else None))"
  by pat_completeness auto
termination
proof (relation "measure length")
qed (auto dest: scan_string_shorter scan_number_shorter)

text \<open>
  The value a token list spells, by recursive descent. The first argument bounds the
  depth of the recursion; \<open>json_loads\<close> gives it more than any token list needs.
\<close>

fun parse_value :: "nat \<Rightarrow> token list \<Rightarrow> (pyval \<times> token list) option"
  and parse_items :: "nat \<Rightarrow> pyval list \<Rightarrow> token list \<Rightarrow> (pyval \<times> token list) option"
  and parse_pairs :: "nat \<Rightarrow> (string \<times> pyval) list \<Rightarrow> token list \<Rightarrow> (pyval \<times> token list) option"
where
  "parse_value 0 ts = None"
| "parse_value (Suc n) [] = None"
| "parse_value (Suc n) (t # ts) =
     (case t of
        T_str s \<Rightarrow> Some (PyStr s, ts)
      | T_int i \<Rightarrow> Some (PyInt i, ts)
      | T_float f \<Rightarrow> Some (PyFloat f, ts)
      | T_true \<Rightarrow> Some (PyBool True, ts)
      | T_false \<Rightarrow> Some (PyBool False, ts)
      | T_null \<Rightarrow> Some (PyNone, ts)
      | T_nan \<Rightarrow> Some (PyFloat ''NaN'', ts)
      | T_inf \<Rightarrow> Some (PyFloat ''Infinity'', ts)
      | T_neginf \<Rightarrow> Some (PyFloat ''-Infinity'', ts)
      | T_lbrack \<Rightarrow>
          (case ts of T_rbrack # ts' \<Rightarrow> Some (PyList [], ts') | _ \<Rightarrow> parse_items n [] ts)
      | T_lbrace \<Rightarrow>
          (case ts of T_rbrace # ts' \<Rightarrow> Some (PyDict [], ts') | _ \<Rightarrow> parse_pairs n [] ts)
      | _ \<Rightarrow> None)"
| "parse_items 0 acc ts = None"
| "parse_items (Suc n) acc ts =
     (case parse_value n ts of
        None \<Rightarrow> None
      | Some (v, ts1) \<Rightarrow>
          (case ts1 of
             T_rbrack # ts2 \<Rightarrow> Some (PyList (acc @ [v]), ts2)
           | T_comma # ts2 \<Rightarrow> parse_items n (acc @ [v]) ts2
           | _ \<Rightarrow> None))"
| "parse_pairs 0 acc ts = None"
| "parse_pairs (Suc n) acc ts =
     (case ts of
        T_str k # T_colon # ts1 \<Rightarrow>
          (case parse_value n ts1 of
             None \<Rightarrow> None
           | Some (v, ts2) \<Rightarrow>
               (case ts2 of
                  T_rbrace # ts3 \<Rightarrow> Some (PyDict (AList.update k v acc), ts3)
                | T_comma # ts3 \<Rightarrow> parse_pairs n (AList.update k v acc) ts3
                | _ \<Rightarrow> None))
      | _ \<Rightarrow> None)"

definition json_loads :: "string \<Rightarrow> exn + pyval" where
  "json_loads s =
     (case tokenize s of
        None \<Rightarrow> Inl JSONDecodeError
      | Some ts \<Rightarrow>
          (case parse_value (2 * length ts + 2) ts of
             Some (v, []) \<Rightarrow> Inr v
           | _ \<Rightarrow> Inl JSONDecodeError))"

section \<open>parse.py: \<open>extract_json_from_response\<close>\<close>

text \<open>
  \<^verbatim>\<open>
  def extract_json_from_response(response):
      response = re.sub(r'^```(?:json)?\s*', '', response, flags=re.MULTILINE)
      response = re.sub(r'\s*```$', '', response, flags=re.MULTILINE)
      response = response.strip('"""').strip("'''")
      try:
          return json.loads(response)
      except json.JSONDecodeError as e:
          print(f"JSON decode error: {e}")
          return None
  \<close>
  The function returns a value or lets an exception other than \<open>JSONDecodeError\<close>
  through, and it prints: the model gives the result and the lines printed. A printed
  line is the text \<^verbatim>\<open>JSON decode error: \<close> followed by the message of the exception.
\<close>

datatype printed = JSON_decode_error_line exn

definition strip_quotes :: "string \<Rightarrow> string" where
  "strip_quotes s =
     str_strip_chars (str_strip_chars s [CHR 0x22, CHR 0x22, CHR 0x22])
       [CHR 0x27, CHR 0x27, CHR 0x27]"

definition extract_json_from_response ::
  "(string \<Rightarrow> exn + pyval) \<Rightarrow> string \<Rightarrow> (exn + pyval) \<times> printed list" where
  "extract_json_from_response loads response =
     (let response1 = re_sub_open_fence response;
          response2 = re_sub_close_fence response1;
          response3 = strip_quotes response2
      in case loads response3 of
           Inr v \<Rightarrow> (Inr v, [])
         | Inl e \<Rightarrow>
             if e = JSONDecodeError then (Inr PyNone, [JSON_decode_error_line e])
             else (Inl e, []))"

section \<open>extract_thinker.py and extract_thinker_local_llama.py: JSON out of a model response\<close>

text \<open>
  Both files end \<^verbatim>\<open>DirectLlamaExtractor.extract_with_prompt\<close> by parsing the decoded
  model output \<open>response\<close>; the models below are these endings, as functions of
  \<open>response\<close>. In extract_thinker.py:
  \<^verbatim>\<open>
  try:
      json_start = response.find('{')
      json_end = response.rfind('}') + 1
      if json_start != -1 and json_end > json_start:
          json_str = response[json_start:json_end]
          return json.loads(json_str)
      else:
          return json.loads(response.strip())
  except json.JSONDecodeError:
      return {"error": "Could not parse JSON", "raw_response": response}
  \<close>
\<close>

definition extract_with_prompt :: "(string \<Rightarrow> exn + pyval) \<Rightarrow> string \<Rightarrow> exn + pyval" where
  "extract_with_prompt loads response =
     (let json_start = str_find response (CHR ''{'');
          json_end = str_rfind response (CHR ''}'') + 1;
          attempt =
            (if json_start \<noteq> - 1 \<and> json_end > json_start
             then loads (py_slice response json_start json_end)
             else loads (str_strip response))
      in case attempt of
           Inr v \<Rightarrow> Inr v
         | Inl e \<Rightarrow>
             if e = JSONDecodeError
             then Inr (PyDict [(''error'', PyStr ''Could not parse JSON''),
                               (''raw_response'', PyStr response)])
             else Inl e)"

text \<open>
  In extract_thinker_local_llama.py:
  \<^verbatim>\<open>
  try:
      json_start = response.find('{')
      json_end = response.rfind('}') + 1
      if json_start != -1 and json_end != -1:
          json_str = response[json_start:json_end]
          return json.loads(json_str)
  except:
      pass
  return {"raw_response": response}
  \<close>
\<close>

definition extract_with_prompt_local_llama ::
  "(string \<Rightarrow> exn + pyval) \<Rightarrow> string \<Rightarrow> exn + pyval" where
  "extract_with_prompt_local_llama loads response =
     (let json_start = str_find response (CHR ''{'');
          json_end = str_rfind response (CHR ''}'') + 1
      in if json_start \<noteq> - 1 \<and> json_end \<noteq> - 1 then
           (case loads (py_slice response json_start json_end) of
              Inr v \<Rightarrow> Inr v
            | Inl e \<Rightarrow> Inr (PyDict [(''raw_response'', PyStr response)]))
         else Inr (PyDict [(''raw_response'', PyStr response)]))"

section \<open>The Response Parser as the specification words it\<close>

text \<open>
  The candidate of step 3 of the specification's algorithm, written from its words:
  with a first \<^verbatim>\<open>{\<close> at index \<open>i\<close> and a last \<^verbatim>\<open>}\<close> at index \<open>j\<close> and \<open>i < j\<close>, the
  characters \<open>i..j\<close> of the text; otherwise the whole text, trimmed.
\<close>

definition first_index :: "string \<Rightarrow> char \<Rightarrow> nat" where
  "first_index s c = length (takeWhile (\<lambda>x. x \<noteq> c) s)"

definition last_index :: "string \<Rightarrow> char \<Rightarrow> nat" where
  "last_index s c = length s - 1 - length (takeWhile (\<lambda>x. x \<noteq> c) (rev s))"

definition spec_candidate :: "string \<Rightarrow> string" where
  "spec_candidate text =
     (if CHR ''{'' \<in> set text \<and> CHR ''}'' \<in> set text \<and>
         first_index text (CHR ''{'') < last_index text (CHR ''}'')
      then take (last_index text (CHR ''}'') + 1 - first_index text (CHR ''{''))
             (drop (first_index text (CHR ''{'')) text)
      else str_strip text)"

text \<open>
  Steps 1 and 2 of that algorithm (the fence markers and the runs of quote characters)
  are the first three lines of \<open>extract_json_from_response\<close>, the only code that strips
  them.
\<close>

definition fence_stripped :: "string \<Rightarrow> string" where
  "fence_stripped text = strip_quotes (re_sub_close_fence (re_sub_open_fence text))"

section \<open>llm_inference.py: the inference client\<close>

subsection \<open>The world outside: endpoint, bucket, clock and log\<close>

text \<open>
  The client talks to a SageMaker endpoint and to S3, reads the clock, sleeps and logs.
  The model threads a \<open>world\<close> through every call: the clock (in seconds) and the trace
  of what has been done so far, each remote call with the reply it got. What the
  remote services answer is an environment \<open>env\<close>: any function of the world at the time
  of the call and of the call's arguments. A remote call takes the time the environment
  says, never less than none; \<^verbatim>\<open>time.sleep(s)\<close> takes \<open>s\<close> seconds and what the
  environment adds. A reply is an exception, or the decoded body of the response (for
  the asynchronous endpoint, the \<^verbatim>\<open>OutputLocation\<close> of the response when it has one);
  an exception raised while reading or decoding a body is the reply's exception.
\<close>

datatype log_msg =
    Using_async_endpoint
  | Using_sync_endpoint
  | Async_failed_falling_back
  | Client_error_during_invocation exn
  | Error_invoking_async exn
  | Error_invoking_sync exn
  | Unexpected_response_format pyval
  | Invalid_S3_output_location string
  | S3_error exn
  | Timeout_waiting int
  | Error_waiting exn
  | Error_during_inference exn

datatype event =
    Invoke_endpoint_async string pyval "exn + string option"
  | Invoke_endpoint string pyval "exn + string"
  | Get_object string string "exn + string"
  | Sleep rat
  | Log log_msg

record world =
  clock :: rat
  trace :: "event list"

record env =
  async_reply :: "world \<Rightarrow> string \<Rightarrow> pyval \<Rightarrow> exn + string option"
  sync_reply :: "world \<Rightarrow> string \<Rightarrow> pyval \<Rightarrow> exn + string"
  s3_reply :: "world \<Rightarrow> string \<Rightarrow> string \<Rightarrow> exn + string"
  call_time :: "world \<Rightarrow> rat"
  oversleep :: "world \<Rightarrow> rat"

definition logger :: "log_msg \<Rightarrow> world \<Rightarrow> world" where
  "logger m w = w\<lparr>trace := trace w @ [Log m]\<rparr>"

definition sagemaker_invoke_endpoint_async ::
  "env \<Rightarrow> string \<Rightarrow> pyval \<Rightarrow> world \<Rightarrow> (exn + string option) \<times> world" where
  "sagemaker_invoke_endpoint_async env name payload w =
     (let r = async_reply env w name payload
      in (r, w\<lparr>clock := clock w + max 0 (call_time env w),
               trace := trace w @ [Invoke_endpoint_async name payload r]\<rparr>))"

definition sagemaker_invoke_endpoint ::
  "env \<Rightarrow> string \<Rightarrow> pyval \<Rightarrow> world \<Rightarrow> (exn + string) \<times> world" where
  "sagemaker_invoke_endpoint env name payload w =
     (let r = sync_reply env w name payload
      in (r, w\<lparr>clock := clock w + max 0 (call_time env w),
               trace := trace w @ [Invoke_endpoint name payload r]\<rparr>))"

definition s3_get_object :: "env \<Rightarrow> string \<Rightarrow> string \<Rightarrow> world \<Rightarrow> (exn + string) \<times> world" where
  "s3_get_object env bucket key w =
     (let r = s3_reply env w bucket key
      in (r, w\<lparr>clock := clock w + max 0 (call_time env w),
               trace := trace w @ [Get_object bucket key r]\<rparr>))"

definition time_sleep :: "env \<Rightarrow> rat \<Rightarrow> world \<Rightarrow> world" where
  "time_sleep env secs w =
     w\<lparr>clock := clock w + secs + max 0 (oversleep env w), trace := trace w @ [Sleep secs]\<rparr>"

text \<open>\<^verbatim>\<open>try: body except ...: handler\<close>, for a handler that takes the exception.\<close>

definition try_except ::
  "(world \<Rightarrow> (exn + 'a) \<times> world) \<Rightarrow> (exn \<Rightarrow> world \<Rightarrow> (exn + 'a) \<times> world) \<Rightarrow>
   world \<Rightarrow> (exn + 'a) \<times> world" where
  "try_except body handler w =
     (case body w of (Inl e, w1) \<Rightarrow> handler e w1 | (Inr v, w1) \<Rightarrow> (Inr v, w1))"

subsection \<open>The client's configuration and payload\<close>

record client =
  endpoint_name :: string
  region_name :: string
  max_tokens :: int
  temperature :: string
  top_p :: string

definition LLMInference :: "string \<Rightarrow> string \<Rightarrow> client" where
  "LLMInference name region =
     \<lparr>endpoint_name = name, region_name = region,
      max_tokens = 2048, temperature = ''0.1'', top_p = ''0.9''\<rparr>"

definition prepare_llama_payload :: "client \<Rightarrow> string \<Rightarrow> pyval" where
  "prepare_llama_payload self prompt =
     PyDict
       [(''inputs'', PyStr
           (''<|begin_of_text|><|start_header_id|>system<|end_header_id|>\<newline>\<newline>'' @
            ''You are an expert at extracting structured data from invoices. '' @
            ''Extract the requested information accurately and return it as valid JSON.'' @
            ''<|eot_id|><|start_header_id|>user<|end_header_id|>\<newline>\<newline>'' @
            prompt @
            ''<|eot_id|><|start_header_id|>assistant<|end_header_id|>\<newline>\<newline>'')),
        (''parameters'', PyDict
           [(''max_new_tokens'', PyInt (max_tokens self)),
            (''temperature'', PyFloat (temperature self)),
            (''top_p'', PyFloat (top_p self)),
            (''do_sample'', PyBool True),
            (''stop'', PyList [PyStr ''<|eot_id|>'']),
            (''return_full_text'', PyBool False)])]"

subsection \<open>\<open>invoke_async_endpoint\<close> and \<open>invoke_sync_endpoint\<close>\<close>

text \<open>
  \<^verbatim>\<open>
  try:
      json_payload = json.dumps(payload)
      response = self.sagemaker_runtime.invoke_endpoint_async(...)
      return response.get('OutputLocation')
  except ClientError as e:
      logger.error(f"AWS Client Error during endpoint invocation: {e}")
      return None
  except Exception as e:
      logger.error(f"Error invoking async endpoint: {e}")
      return None
  \<close>
  The payload is a Python value built from strings, numbers, booleans, lists and dicts,
  which \<^verbatim>\<open>json.dumps\<close> always serialises; the model hands the payload itself to the
  endpoint.
\<close>

definition invoke_async_endpoint ::
  "client \<Rightarrow> env \<Rightarrow> pyval \<Rightarrow> world \<Rightarrow> (exn + string option) \<times> world" where
  "invoke_async_endpoint self env payload =
     try_except
       (sagemaker_invoke_endpoint_async env (endpoint_name self) payload)
       (\<lambda>e w. case e of
           ClientError code \<Rightarrow> (Inr None, logger (Client_error_during_invocation e) w)
         | _ \<Rightarrow> (Inr None, logger (Error_invoking_async e) w))"

text \<open>
  The part both \<open>invoke_sync_endpoint\<close> and \<open>wait_for_async_result\<close> run on the decoded
  response \<open>result\<close>:
  \<^verbatim>\<open>
  if isinstance(result, list) and len(result) > 0:
      return result[0].get('generated_text', '')
  elif isinstance(result, dict):
      return result.get('generated_text', '')
  else:
      logger.error(f"Unexpected response format: {result}")
      return None
  \<close>
  Only a dict has \<^verbatim>\<open>.get\<close>: on any other first element the call raises
  \<open>AttributeError\<close>.
\<close>

definition extract_generated_text :: "pyval \<Rightarrow> world \<Rightarrow> (exn + pyval) \<times> world" where
  "extract_generated_text result w =
     (case result of
        PyList (x # xs) \<Rightarrow>
          (case x of
             PyDict d \<Rightarrow> (Inr (dict_get d ''generated_text'' (PyStr [])), w)
           | _ \<Rightarrow> (Inl AttributeError, w))
      | PyDict d \<Rightarrow> (Inr (dict_get d ''generated_text'' (PyStr [])), w)
      | _ \<Rightarrow> (Inr PyNone, logger (Unexpected_response_format result) w))"

definition invoke_sync_endpoint ::
  "client \<Rightarrow> env \<Rightarrow> (string \<Rightarrow> exn + pyval) \<Rightarrow> pyval \<Rightarrow> world \<Rightarrow> (exn + pyval) \<times> world" where
  "invoke_sync_endpoint self env loads payload =
     try_except
       (\<lambda>w. case sagemaker_invoke_endpoint env (endpoint_name self) payload w of
               (Inl e, w1) \<Rightarrow> (Inl e, w1)
             | (Inr body, w1) \<Rightarrow>
                 (case loads body of
                    Inl e \<Rightarrow> (Inl e, w1)
                  | Inr result \<Rightarrow> extract_generated_text result w1))
       (\<lambda>e w. case e of
           ClientError code \<Rightarrow> (Inr PyNone, logger (Client_error_during_invocation e) w)
         | _ \<Rightarrow> (Inr PyNone, logger (Error_invoking_sync e) w))"

subsection \<open>\<open>wait_for_async_result\<close>\<close>

text \<open>
  The polling loop:
  \<^verbatim>\<open>
  while time.time() - start_time < max_wait_time:
      try:
          response = self.s3_client.get_object(Bucket=bucket, Key=key)
          result = json.loads(response['Body'].read().decode())
          ... (the extraction above)
      except ClientError as e:
          if e.response['Error']['Code'] == 'NoSuchKey':
              time.sleep(5)
              continue
          else:
              logger.error(f"S3 error: {e}")
              return None
  logger.error(f"Timeout waiting for async result after {max_wait_time} seconds")
  return None
  \<close>
  An exception that is not a \<open>ClientError\<close> leaves the loop. Every turn that goes round
  again sleeps, so the time left shrinks and the loop ends.
\<close>

lemma s3_get_object_clock: "clock w \<le> clock (snd (s3_get_object env bucket key w))"
  by (simp add: s3_get_object_def Let_def)

lemma time_sleep_clock: "clock w + secs \<le> clock (time_sleep env secs w)"
  by (simp add: time_sleep_def)

lemma wait_loop_measure:
  assumes "clock w - start_time < of_int max_wait_time"
    and "(r, w1) = s3_get_object env bucket key w"
  shows "\<lceil>of_int max_wait_time - (clock (time_sleep env 5 w1) - start_time)\<rceil>
       < \<lceil>of_int max_wait_time - (clock w - start_time)\<rceil>"
proof -
  let ?a = "of_int max_wait_time - (clock w - start_time)"
  let ?b = "of_int max_wait_time - (clock (time_sleep env 5 w1) - start_time)"
  have "w1 = snd (s3_get_object env bucket key w)"
    using assms(2) by (metis snd_conv)
  then have "clock w \<le> clock w1"
    using s3_get_object_clock by simp
  with time_sleep_clock [of w1 5 env] have "?b \<le> ?a - 5"
    by simp
  then have "\<lceil>?b\<rceil> \<le> \<lceil>?a - 5\<rceil>"
    by (rule ceiling_mono)
  also have "\<dots> = \<lceil>?a\<rceil> - 5"
    by simp
  finally show ?thesis
    by simp
qed

function wait_loop ::
  "env \<Rightarrow> (string \<Rightarrow> exn + pyval) \<Rightarrow> string \<Rightarrow> string \<Rightarrow> rat \<Rightarrow> int \<Rightarrow> world \<Rightarrow>
   (exn + pyval) \<times> world" where
  "wait_loop env loads bucket key start_time max_wait_time w =
     (if clock w - start_time < of_int max_wait_time then
        (case s3_get_object env bucket key w of
           (Inr body, w1) \<Rightarrow>
             (case loads body of
                Inl e \<Rightarrow> (Inl e, w1)
              | Inr result \<Rightarrow> extract_generated_text result w1)
         | (Inl e, w1) \<Rightarrow>
             (case e of
                ClientError code \<Rightarrow>
                  if code = ''NoSuchKey''
                  then wait_loop env loads bucket key start_time max_wait_time
                         (time_sleep env 5 w1)
                  else (Inr PyNone, logger (S3_error e) w1)
              | _ \<Rightarrow> (Inl e, w1)))
      else (Inr PyNone, logger (Timeout_waiting max_wait_time) w))"
  by pat_completeness auto
termination
  by (relation "measure (\<lambda>(env, loads, bucket, key, start_time, max_wait_time, w).
                   nat \<lceil>of_int max_wait_time - (clock w - start_time)\<rceil>)")
    (auto intro: wait_loop_measure)

text \<open>
  \<^verbatim>\<open>
  try:
      if not output_location.startswith('s3://'):
          logger.error(f"Invalid S3 output location: {output_location}")
          return None
      s3_path = output_location[5:]
      bucket, key = s3_path.split('/', 1)
      start_time = time.time()
      ... (the loop)
  except Exception as e:
      logger.error(f"Error waiting for async result: {e}")
      return None
  \<close>
  A path with no \<^verbatim>\<open>/\<close> splits into one part, and unpacking it raises \<open>ValueError\<close>.
\<close>

definition wait_for_async_result ::
  "env \<Rightarrow> (string \<Rightarrow> exn + pyval) \<Rightarrow> string \<Rightarrow> int \<Rightarrow> world \<Rightarrow> (exn + pyval) \<times> world" where
  "wait_for_async_result env loads output_location max_wait_time =
     try_except
       (\<lambda>w. if \<not> str_startswith output_location ''s3://''
             then (Inr PyNone, logger (Invalid_S3_output_location output_location) w)
             else
               (let s3_path = drop 5 output_location
                in case str_split1 s3_path (CHR ''/'') of
                     [bucket, key] \<Rightarrow>
                       wait_loop env loads bucket key (clock w) max_wait_time w
                   | _ \<Rightarrow> (Inl ValueError, w)))
       (\<lambda>e w. (Inr PyNone, logger (Error_waiting e) w))"

subsection \<open>\<open>infer\<close>\<close>

text \<open>
  \<^verbatim>\<open>
  try:
      payload = self.prepare_llama_payload(prompt)
      if use_async:
          logger.info("Using async endpoint for inference")
          output_location = self.invoke_async_endpoint(payload)
          if output_location:
              return self.wait_for_async_result(output_location)
          else:
              logger.warning("Async endpoint failed, falling back to sync")
              return self.invoke_sync_endpoint(payload)
      else:
          logger.info("Using sync endpoint for inference")
          return self.invoke_sync_endpoint(payload)
  except Exception as e:
      logger.error(f"Error during inference: {e}")
      return None
  \<close>
  \<^verbatim>\<open>if output_location:\<close> holds for a string that is not empty; the wait runs with its
  default \<^verbatim>\<open>max_wait_time = 300\<close>.
\<close>

definition infer ::
  "client \<Rightarrow> env \<Rightarrow> (string \<Rightarrow> exn + pyval) \<Rightarrow> string \<Rightarrow> bool \<Rightarrow> world \<Rightarrow> (exn + pyval) \<times> world" where
  "infer self env loads prompt use_async =
     try_except
       (\<lambda>w. let payload = prepare_llama_payload self prompt
             in if use_async then
                  (case invoke_async_endpoint self env payload (logger Using_async_endpoint w) of
                     (Inl e, w1) \<Rightarrow> (Inl e, w1)
                   | (Inr output_location, w1) \<Rightarrow>
                       if (case output_location of None \<Rightarrow> False | Some loc \<Rightarrow> loc \<noteq> [])
                       then wait_for_async_result env loads (the output_location) 300 w1
                       else invoke_sync_endpoint self env loads payload
                              (logger Async_failed_falling_back w1))
                else invoke_sync_endpoint self env loads payload (logger Using_sync_endpoint w))
       (\<lambda>e w. (Inr PyNone, logger (Error_during_inference e) w))"

section \<open>Reading a trace\<close>

text \<open>
  The remote calls, sleeps and log lines of a run are counted in its trace.
\<close>

fun is_poll :: "event \<Rightarrow> bool" where
  "is_poll (Get_object b k r) = True"
| "is_poll _ = False"

fun is_sleep :: "event \<Rightarrow> bool" where
  "is_sleep (Sleep s) = True"
| "is_sleep _ = False"

fun is_sync_call :: "event \<Rightarrow> bool" where
  "is_sync_call (Invoke_endpoint n p r) = True"
| "is_sync_call _ = False"

fun is_async_call :: "event \<Rightarrow> bool" where
  "is_async_call (Invoke_endpoint_async n p r) = True"
| "is_async_call _ = False"

fun is_log :: "event \<Rightarrow> bool" where
  "is_log (Log m) = True"
| "is_log _ = False"

definition polls :: "event list \<Rightarrow> nat" where
  "polls tr = length (filter is_poll tr)"

definition sleeps :: "event list \<Rightarrow> nat" where
  "sleeps tr = length (filter is_sleep tr)"

definition sync_calls :: "event list \<Rightarrow> nat" where
  "sync_calls tr = length (filter is_sync_call tr)"

definition async_calls :: "event list \<Rightarrow> nat" where
  "async_calls tr = length (filter is_async_call tr)"

text \<open>
  A poll is fatal when its reply is an exception other than the \<open>ClientError\<close> with code
  \<^verbatim>\<open>NoSuchKey\<close>. In a trace that stops at errors, only log lines follow a fatal poll.
\<close>

fun is_fatal_poll :: "event \<Rightarrow> bool" where
  "is_fatal_poll (Get_object b k r) =
     (case r of Inl e \<Rightarrow> e \<noteq> ClientError ''NoSuchKey'' | Inr body \<Rightarrow> False)"
| "is_fatal_poll _ = False"

fun stops_at_error :: "event list \<Rightarrow> bool" where
  "stops_at_error [] = True"
| "stops_at_error (ev # evs) = ((\<not> is_fatal_poll ev \<or> list_all is_log evs) \<and> stops_at_error evs)"

text \<open>
  What the client makes of a reply: the value under \<^verbatim>\<open>generated_text\<close> (the empty
  string when the key is absent) of a body that decodes to a dict, or to a list whose
  first element is a dict; \<^verbatim>\<open>None\<close> for an exception, a body that does not decode, and
  any other value.
\<close>

definition generated_text_of :: "(string \<Rightarrow> exn + pyval) \<Rightarrow> exn + string \<Rightarrow> pyval" where
  "generated_text_of loads reply =
     (case reply of
        Inl e \<Rightarrow> PyNone
      | Inr body \<Rightarrow>
          (case loads body of
             Inl e \<Rightarrow> PyNone
           | Inr result \<Rightarrow>
               (case result of
                  PyList (PyDict d # xs) \<Rightarrow> dict_get d ''generated_text'' (PyStr [])
                | PyDict d \<Rightarrow> dict_get d ''generated_text'' (PyStr [])
                | _ \<Rightarrow> PyNone)))"

text \<open>
  The inbound envelope as the specification words it: a one-element sequence of an
  object with the one field \<^verbatim>\<open>generated_text\<close> holding a string, or that object itself.
\<close>

definition spec_envelope :: "pyval \<Rightarrow> string option" where
  "spec_envelope result =
     (case result of
        PyList [PyDict [(k, PyStr s)]] \<Rightarrow> if k = ''generated_text'' then Some s else None
      | PyDict [(k, PyStr s)] \<Rightarrow> if k = ''generated_text'' then Some s else None
      | _ \<Rightarrow> None)"

section \<open>Concrete worlds\<close>

definition world0 :: world where
  "world0 = \<lparr>clock = 0, trace = []\<rparr>"

definition client0 :: client where
  "client0 = LLMInference ''llama-endpoint'' ''us-east-1''"

text \<open>
  \<open>env_never\<close>: the asynchronous endpoint rejects every submission, the synchronous one
  answers with a well-formed envelope, the result object never appears in the bucket.
\<close>

definition env_never :: env where
  \<open>env_never =
     \<lparr>async_reply = (\<lambda>w name payload. Inl (ClientError ''ValidationError'')),
      sync_reply = (\<lambda>w name payload. Inr ''[{"generated_text": "hello"}]''),
      s3_reply = (\<lambda>w bucket key. Inl (ClientError ''NoSuchKey'')),
      call_time = (\<lambda>w. 0),
      oversleep = (\<lambda>w. 0)\<rparr>\<close>

text \<open>
  \<open>env_denied\<close>: the submission is accepted, the bucket refuses the read, and the
  synchronous endpoint is down.
\<close>

definition env_denied :: env where
  "env_denied =
     \<lparr>async_reply = (\<lambda>w name payload. Inr (Some ''s3://bucket/out.json'')),
      sync_reply = (\<lambda>w name payload. Inl (OtherException ''connection refused'')),
      s3_reply = (\<lambda>w bucket key. Inl (ClientError ''AccessDenied'')),
      call_time = (\<lambda>w. 0),
      oversleep = (\<lambda>w. 0)\<rparr>"

text \<open>\<open>env_body b\<close>: every call succeeds, and every body read is the text \<open>b\<close>.\<close>

definition env_body :: "string \<Rightarrow> env" where
  "env_body b =
     \<lparr>async_reply = (\<lambda>w name payload. Inr (Some ''s3://bucket/out.json'')),
      sync_reply = (\<lambda>w name payload. Inr b),
      s3_reply = (\<lambda>w bucket key. Inr b),
      call_time = (\<lambda>w. 1),
      oversleep = (\<lambda>w. 0)\<rparr>"

section \<open>The inference client: what a run does\<close>

lemma extract_generated_text_result:
  "fst (extract_generated_text result w) = Inl e \<Longrightarrow> e = AttributeError"
  by (auto simp: extract_generated_text_def split: pyval.splits list.splits)

lemma invoke_sync_endpoint_result:
  "fst (invoke_sync_endpoint self env loads payload w) =
     Inr (generated_text_of loads (sync_reply env w (endpoint_name self) payload))"
  by (auto simp: invoke_sync_endpoint_def try_except_def sagemaker_invoke_endpoint_def Let_def
      generated_text_of_def extract_generated_text_def
      split: sum.splits pyval.splits list.splits exn.splits prod.splits)

lemma invoke_sync_endpoint_trace:
  "\<exists>logs. trace (snd (invoke_sync_endpoint self env loads payload w)) =
       trace w @ Invoke_endpoint (endpoint_name self) payload
                   (sync_reply env w (endpoint_name self) payload) # logs \<and>
     list_all is_log logs \<and>
     (generated_text_of loads (sync_reply env w (endpoint_name self) payload) \<noteq> PyNone \<longrightarrow> logs = [])"
  by (auto simp: invoke_sync_endpoint_def try_except_def sagemaker_invoke_endpoint_def Let_def
      generated_text_of_def extract_generated_text_def logger_def
      split: sum.splits pyval.splits list.splits exn.splits prod.splits)

lemma invoke_async_endpoint_result:
  "fst (invoke_async_endpoint self env payload w) =
     Inr (case async_reply env w (endpoint_name self) payload of Inl e \<Rightarrow> None | Inr ol \<Rightarrow> ol)"
  by (auto simp: invoke_async_endpoint_def try_except_def sagemaker_invoke_endpoint_async_def
      Let_def split: sum.splits exn.splits prod.splits)

lemma invoke_async_endpoint_trace:
  "\<exists>logs. trace (snd (invoke_async_endpoint self env payload w)) =
       trace w @ Invoke_endpoint_async (endpoint_name self) payload
                   (async_reply env w (endpoint_name self) payload) # logs \<and>
     list_all is_log logs"
  by (auto simp: invoke_async_endpoint_def try_except_def sagemaker_invoke_endpoint_async_def
      Let_def logger_def split: sum.splits exn.splits prod.splits)


lemma count_simps:
  "polls (xs @ ys) = polls xs + polls ys"
  "sleeps (xs @ ys) = sleeps xs + sleeps ys"
  "sync_calls (xs @ ys) = sync_calls xs + sync_calls ys"
  "async_calls (xs @ ys) = async_calls xs + async_calls ys"
  by (simp_all add: polls_def sleeps_def sync_calls_def async_calls_def)

lemma count_logs:
  assumes "list_all is_log logs"
  shows "polls logs = 0" "sleeps logs = 0" "sync_calls logs = 0" "async_calls logs = 0"
proof -
  have "\<forall>ev \<in> set logs. \<exists>m. ev = Log m"
    using assms by (auto simp: list_all_iff elim: is_log.elims)
  then have "filter is_poll logs = [] \<and> filter is_sleep logs = [] \<and>
      filter is_sync_call logs = [] \<and> filter is_async_call logs = []"
    by (auto simp: filter_empty_conv)
  then show "polls logs = 0" "sleeps logs = 0" "sync_calls logs = 0" "async_calls logs = 0"
    by (simp_all add: polls_def sleeps_def sync_calls_def async_calls_def)
qed

lemma count_Cons:
  "polls (ev # evs) = (if is_poll ev then 1 else 0) + polls evs"
  "sleeps (ev # evs) = (if is_sleep ev then 1 else 0) + sleeps evs"
  "sync_calls (ev # evs) = (if is_sync_call ev then 1 else 0) + sync_calls evs"
  "async_calls (ev # evs) = (if is_async_call ev then 1 else 0) + async_calls evs"
  by (simp_all add: polls_def sleeps_def sync_calls_def async_calls_def)

lemma try_except_Inr:
  "fst (body w) = Inr v \<Longrightarrow> try_except body handler w = body w"
  by (cases "body w") (auto simp: try_except_def)

lemma invoke_sync_endpoint_counts:
  "sync_calls (trace (snd (invoke_sync_endpoint self env loads payload w))) = sync_calls (trace w) + 1 \<and>
   async_calls (trace (snd (invoke_sync_endpoint self env loads payload w))) = async_calls (trace w) \<and>
   polls (trace (snd (invoke_sync_endpoint self env loads payload w))) = polls (trace w) \<and>
   sleeps (trace (snd (invoke_sync_endpoint self env loads payload w))) = sleeps (trace w)"
proof -
  obtain logs where
    "trace (snd (invoke_sync_endpoint self env loads payload w)) =
       trace w @ Invoke_endpoint (endpoint_name self) payload
                   (sync_reply env w (endpoint_name self) payload) # logs"
    "list_all is_log logs"
    using invoke_sync_endpoint_trace by blast
  then show ?thesis
    by (simp add: count_simps count_Cons count_logs)
qed

lemma invoke_async_endpoint_counts:
  "sync_calls (trace (snd (invoke_async_endpoint self env payload w))) = sync_calls (trace w) \<and>
   async_calls (trace (snd (invoke_async_endpoint self env payload w))) = async_calls (trace w) + 1 \<and>
   polls (trace (snd (invoke_async_endpoint self env payload w))) = polls (trace w) \<and>
   sleeps (trace (snd (invoke_async_endpoint self env payload w))) = sleeps (trace w)"
proof -
  obtain logs where
    "trace (snd (invoke_async_endpoint self env payload w)) =
       trace w @ Invoke_endpoint_async (endpoint_name self) payload
                   (async_reply env w (endpoint_name self) payload) # logs"
    "list_all is_log logs"
    using invoke_async_endpoint_trace by blast
  then show ?thesis
    by (simp add: count_simps count_Cons count_logs)
qed

lemma logger_counts:
  "sync_calls (trace (logger m w)) = sync_calls (trace w)"
  "async_calls (trace (logger m w)) = async_calls (trace w)"
  "polls (trace (logger m w)) = polls (trace w)"
  "sleeps (trace (logger m w)) = sleeps (trace w)"
  by (simp_all add: logger_def count_simps count_Cons polls_def sleeps_def sync_calls_def async_calls_def)

lemma infer_fallback:
  assumes "fst (invoke_async_endpoint self env (prepare_llama_payload self prompt)
                  (logger Using_async_endpoint w)) = Inr ol"
    and "ol = None \<or> ol = Some []"
  shows "infer self env loads prompt True w =
           invoke_sync_endpoint self env loads (prepare_llama_payload self prompt)
             (logger Async_failed_falling_back
                (snd (invoke_async_endpoint self env (prepare_llama_payload self prompt)
                        (logger Using_async_endpoint w))))"
proof -
  let ?p = "prepare_llama_payload self prompt"
  let ?a = "invoke_async_endpoint self env ?p (logger Using_async_endpoint w)"
  let ?s = "invoke_sync_endpoint self env loads ?p (logger Async_failed_falling_back (snd ?a))"
  let ?body = "\<lambda>w. let payload = prepare_llama_payload self prompt
             in if True then
                  (case invoke_async_endpoint self env payload (logger Using_async_endpoint w) of
                     (Inl e, w1) \<Rightarrow> (Inl e, w1)
                   | (Inr output_location, w1) \<Rightarrow>
                       if (case output_location of None \<Rightarrow> False | Some loc \<Rightarrow> loc \<noteq> [])
                       then wait_for_async_result env loads (the output_location) 300 w1
                       else invoke_sync_endpoint self env loads payload
                              (logger Async_failed_falling_back w1))
                else invoke_sync_endpoint self env loads payload (logger Using_sync_endpoint w)"
  from assms have b: "?body w = ?s"
    by (cases ?a) (auto simp: Let_def)
  have "fst ?s = Inr (generated_text_of loads
      (sync_reply env (logger Async_failed_falling_back (snd ?a)) (endpoint_name self) ?p))"
    by (rule invoke_sync_endpoint_result)
  with b have "try_except ?body (\<lambda>e w. (Inr PyNone, logger (Error_during_inference e) w)) w = ?body w"
    by (intro try_except_Inr) simp
  with b show ?thesis
    by (simp add: infer_def)
qed

text \<open>
  Claim C4. When the asynchronous submission fails (\<open>invoke_async_endpoint\<close> returns
  \<^verbatim>\<open>None\<close>), \<open>infer\<close> with \<open>use_async = True\<close> is one run of \<open>invoke_sync_endpoint\<close> on the
  same payload, whose result it returns: the whole call makes exactly one synchronous
  invocation, the one asynchronous submission that failed and no second one, and no
  poll.
\<close>

theorem C4_fallback_once:
  assumes "fst (invoke_async_endpoint self env (prepare_llama_payload self prompt)
                  (logger Using_async_endpoint w)) = Inr None"
  shows "infer self env loads prompt True w =
           invoke_sync_endpoint self env loads (prepare_llama_payload self prompt)
             (logger Async_failed_falling_back
                (snd (invoke_async_endpoint self env (prepare_llama_payload self prompt)
                        (logger Using_async_endpoint w)))) \<and>
         sync_calls (trace (snd (infer self env loads prompt True w))) = sync_calls (trace w) + 1 \<and>
         async_calls (trace (snd (infer self env loads prompt True w))) = async_calls (trace w) + 1 \<and>
         polls (trace (snd (infer self env loads prompt True w))) = polls (trace w)"
  using infer_fallback [OF assms, of loads]
  by (simp add: invoke_sync_endpoint_counts invoke_async_endpoint_counts logger_counts)

theorem C4_fallback_once_witness:
  \<open>fst (infer client0 env_never json_loads ''Extract the total.'' True world0) = Inr (PyStr ''hello'') \<and>
   sync_calls (trace (snd (infer client0 env_never json_loads ''Extract the total.'' True world0))) = 1 \<and>
   async_calls (trace (snd (infer client0 env_never json_loads ''Extract the total.'' True world0))) = 1 \<and>
   polls (trace (snd (infer client0 env_never json_loads ''Extract the total.'' True world0))) = 0\<close>
proof -
  have a: "fst (invoke_async_endpoint client0 env_never (prepare_llama_payload client0 ''Extract the total.'')
                  (logger Using_async_endpoint world0)) = Inr None"
    by (simp add: invoke_async_endpoint_result env_never_def)
  have j: \<open>json_loads ''[{"generated_text": "hello"}]'' = Inr (PyList [PyDict [(''generated_text'', PyStr ''hello'')]])\<close>
    by code_simp
  have s: "fst (invoke_sync_endpoint client0 env_never json_loads p w) = Inr (PyStr ''hello'')" for p w
    unfolding invoke_sync_endpoint_result
    by (simp add: env_never_def generated_text_of_def j dict_get_def)
  note t = C4_fallback_once [OF a, of json_loads]
  have "fst (infer client0 env_never json_loads ''Extract the total.'' True world0) = Inr (PyStr ''hello'')"
    unfolding conjunct1 [OF t] by (rule s)
  moreover have "sync_calls (trace world0) = 0" "async_calls (trace world0) = 0" "polls (trace world0) = 0"
    by (simp_all add: world0_def sync_calls_def async_calls_def polls_def)
  moreover note conjunct2 [OF t]
  ultimately show ?thesis
    by simp
qed

text \<open>
  Claim C10. For an \<open>output_location\<close> that does not begin with \<^verbatim>\<open>s3://\<close>,
  \<open>wait_for_async_result\<close> returns \<^verbatim>\<open>None\<close> at once: the clock has not moved and the
  trace has grown by the one log line, so there was no poll and no sleep.
\<close>

theorem C10_invalid_location:
  assumes "\<not> str_startswith output_location ''s3://''"
  shows "wait_for_async_result env loads output_location max_wait_time w =
           (Inr PyNone,
            w\<lparr>trace := trace w @ [Log (Invalid_S3_output_location output_location)]\<rparr>)"
  using assms by (simp add: wait_for_async_result_def try_except_def logger_def)

theorem C10_invalid_location_witness:
  "wait_for_async_result env_never json_loads ''http://bucket/key'' 300 world0 =
     (Inr PyNone,
      \<lparr>clock = 0, trace = [Log (Invalid_S3_output_location ''http://bucket/key'')]\<rparr>)"
  using C10_invalid_location [of "''http://bucket/key''" env_never json_loads 300 world0]
  by (simp add: str_startswith_def world0_def)

lemma json_hello:
  \<open>json_loads ''[{"generated_text": "hello"}]'' =
     Inr (PyList [PyDict [(''generated_text'', PyStr ''hello'')]])\<close>
  by code_simp

lemma json_empty_object: \<open>json_loads ''{}'' = Inr (PyDict [])\<close>
  by code_simp

lemma spec_envelope_generated_text:
  assumes "spec_envelope result = Some s" and "loads body = Inr result"
  shows "generated_text_of loads (Inr body) = PyStr s"
  using assms
  by (auto simp: spec_envelope_def generated_text_of_def dict_get_def
      split: pyval.splits list.splits prod.splits if_splits)

text \<open>
  Claim C5, as amended. \<open>invoke_sync_endpoint\<close> returns the value under
  \<^verbatim>\<open>generated_text\<close> (the empty string when the key is absent) of a body that decodes
  to a list whose first element is a dict, or to a dict; in particular it returns the
  string of an envelope of the specification's shape, and \<^verbatim>\<open>hello\<close> for
  \<^verbatim>\<open>[{"generated_text": "hello"}]\<close>. It returns \<^verbatim>\<open>None\<close> when the call raises, when the
  body does not decode, and for any other decoded value.
\<close>

theorem C5_invoke_sync_envelope:
  \<open>fst (invoke_sync_endpoint self env loads payload w) =
      Inr (generated_text_of loads (sync_reply env w (endpoint_name self) payload)) \<and>
   (\<forall>body result s.
      sync_reply env w (endpoint_name self) payload = Inr body \<and> loads body = Inr result \<and>
      spec_envelope result = Some s \<longrightarrow>
      fst (invoke_sync_endpoint self env loads payload w) = Inr (PyStr s)) \<and>
   (\<forall>e. sync_reply env w (endpoint_name self) payload = Inl e \<longrightarrow>
      fst (invoke_sync_endpoint self env loads payload w) = Inr PyNone) \<and>
   (\<forall>body e. sync_reply env w (endpoint_name self) payload = Inr body \<and> loads body = Inl e \<longrightarrow>
      fst (invoke_sync_endpoint self env loads payload w) = Inr PyNone) \<and>
   fst (invoke_sync_endpoint self (env_body ''[{"generated_text": "hello"}]'') json_loads payload w) =
      Inr (PyStr ''hello'')\<close>
proof -
  let ?reply = "sync_reply env w (endpoint_name self) payload"
  let ?r = "fst (invoke_sync_endpoint self env loads payload w)"
  have r: "?r = Inr (generated_text_of loads ?reply)"
    by (rule invoke_sync_endpoint_result)
  have a: "?r = Inr (PyStr s)"
    if "?reply = Inr body \<and> loads body = Inr result \<and> spec_envelope result = Some s"
    for body result s
    using that r spec_envelope_generated_text [of result s loads body] by simp
  have b: "?r = Inr PyNone" if "?reply = Inl e" for e
    using that r by (simp add: generated_text_of_def)
  have c: "?r = Inr PyNone" if "?reply = Inr body \<and> loads body = Inl e" for body e
    using that r by (simp add: generated_text_of_def)
  have d: \<open>fst (invoke_sync_endpoint self (env_body ''[{"generated_text": "hello"}]'') json_loads
                 payload w) = Inr (PyStr ''hello'')\<close>
    by (simp add: invoke_sync_endpoint_result env_body_def generated_text_of_def json_hello
        dict_get_def)
  from r a b c d show ?thesis
    by blast
qed

theorem C5_invoke_sync_envelope_witness:
  \<open>fst (invoke_sync_endpoint client0 (env_body ''[{"generated_text": "hello"}]'') json_loads
          (prepare_llama_payload client0 ''Extract the total.'') world0) = Inr (PyStr ''hello'')\<close>
proof -
  have "spec_envelope (PyList [PyDict [(''generated_text'', PyStr ''hello'')]]) = Some ''hello''"
    by (simp add: spec_envelope_def)
  moreover have \<open>sync_reply (env_body ''[{"generated_text": "hello"}]'') world0 (endpoint_name client0)
      (prepare_llama_payload client0 ''Extract the total.'') = Inr ''[{"generated_text": "hello"}]''\<close>
    by (simp add: env_body_def)
  ultimately show ?thesis
    using C5_invoke_sync_envelope [of client0 \<open>env_body ''[{"generated_text": "hello"}]''\<close>
        json_loads "prepare_llama_payload client0 ''Extract the total.''" world0] json_hello
    by blast
qed

text \<open>
  The claim as stated fails: the body \<^verbatim>\<open>{}\<close> is not of the specification's shape, and
  the call returns the empty string for it, not a failure.
\<close>

theorem C5_other_shape_counterexample:
  \<open>json_loads ''{}'' = Inr (PyDict []) \<and> spec_envelope (PyDict []) = None \<and>
   fst (invoke_sync_endpoint client0 (env_body ''{}'') json_loads
          (prepare_llama_payload client0 ''Extract the total.'') world0) = Inr (PyStr [])\<close>
  by (simp add: json_empty_object spec_envelope_def invoke_sync_endpoint_result env_body_def
      generated_text_of_def dict_get_def)

section \<open>The polling loop, turn by turn\<close>

lemma s3_get_object_eq:
  "s3_get_object env bucket key w =
     (s3_reply env w bucket key,
      w\<lparr>clock := clock w + max 0 (call_time env w),
        trace := trace w @ [Get_object bucket key (s3_reply env w bucket key)]\<rparr>)"
  by (simp add: s3_get_object_def Let_def)

lemma wait_loop_timeout:
  "\<not> clock w - start_time < of_int max_wait_time \<Longrightarrow>
   wait_loop env loads bucket key start_time max_wait_time w =
     (Inr PyNone, logger (Timeout_waiting max_wait_time) w)"
  by (subst wait_loop.simps) simp

lemma wait_loop_retry:
  "clock w - start_time < of_int max_wait_time \<Longrightarrow>
   s3_reply env w bucket key = Inl (ClientError ''NoSuchKey'') \<Longrightarrow>
   wait_loop env loads bucket key start_time max_wait_time w =
     wait_loop env loads bucket key start_time max_wait_time
       (time_sleep env 5 (snd (s3_get_object env bucket key w)))"
  by (subst wait_loop.simps) (simp add: s3_get_object_eq)

lemma wait_loop_fatal:
  "clock w - start_time < of_int max_wait_time \<Longrightarrow>
   s3_reply env w bucket key = Inl e \<Longrightarrow> e \<noteq> ClientError ''NoSuchKey'' \<Longrightarrow>
   wait_loop env loads bucket key start_time max_wait_time w =
     (case e of
        ClientError code \<Rightarrow> (Inr PyNone, logger (S3_error e) (snd (s3_get_object env bucket key w)))
      | _ \<Rightarrow> (Inl e, snd (s3_get_object env bucket key w)))"
  by (subst wait_loop.simps) (auto simp: s3_get_object_eq split: exn.splits)

lemma wait_loop_body:
  "clock w - start_time < of_int max_wait_time \<Longrightarrow>
   s3_reply env w bucket key = Inr body \<Longrightarrow>
   wait_loop env loads bucket key start_time max_wait_time w =
     (case loads body of
        Inl e \<Rightarrow> (Inl e, snd (s3_get_object env bucket key w))
      | Inr result \<Rightarrow> extract_generated_text result (snd (s3_get_object env bucket key w)))"
  by (subst wait_loop.simps) (simp add: s3_get_object_eq split: sum.splits)

text \<open>One failed poll and its sleep: what they add to the world.\<close>

lemma retry_world:
  "trace (time_sleep env 5 (snd (s3_get_object env bucket key w))) =
     trace w @ [Get_object bucket key (s3_reply env w bucket key), Sleep 5]"
  "clock w + 5 \<le> clock (time_sleep env 5 (snd (s3_get_object env bucket key w)))"
  by (simp_all add: s3_get_object_eq time_sleep_def)

lemma wait_loop_never:
  assumes never: "\<forall>w. s3_reply env w bucket key = Inl (ClientError ''NoSuchKey'')"
  shows "fst (wait_loop env loads bucket key start_time max_wait_time w) = Inr PyNone \<and>
         of_int max_wait_time \<le>
           clock (snd (wait_loop env loads bucket key start_time max_wait_time w)) - start_time \<and>
         (\<exists>evs. trace (snd (wait_loop env loads bucket key start_time max_wait_time w)) =
                  trace w @ evs @ [Log (Timeout_waiting max_wait_time)] \<and>
                list_all (\<lambda>ev. ev = Get_object bucket key (Inl (ClientError ''NoSuchKey'')) \<or> ev = Sleep 5) evs \<and>
                sleeps evs = polls evs \<and>
                int (polls evs) \<le> max 0 \<lceil>(of_int max_wait_time - (clock w - start_time)) / 5\<rceil>)"
  using never
proof (induction env loads bucket key start_time max_wait_time w rule: wait_loop.induct)
  case (1 env loads bucket key start_time max_wait_time w)
  let ?L = "\<lambda>w. wait_loop env loads bucket key start_time max_wait_time w"
  show ?case
  proof (cases "clock w - start_time < of_int max_wait_time")
    case False
    then have "?L w = (Inr PyNone, logger (Timeout_waiting max_wait_time) w)"
      by (rule wait_loop_timeout)
    with False show ?thesis
      by (simp add: logger_def polls_def sleeps_def)
  next
    case True
    let ?w1 = "snd (s3_get_object env bucket key w)"
    let ?w2 = "time_sleep env 5 ?w1"
    let ?ev = "Get_object bucket key (Inl (ClientError ''NoSuchKey''))"
    have nk: "s3_reply env w bucket key = Inl (ClientError ''NoSuchKey'')"
      using "1.prems" by simp
    have eq: "?L w = ?L ?w2"
      using True nk by (rule wait_loop_retry)
    have IH: "fst (?L ?w2) = Inr PyNone \<and>
         of_int max_wait_time \<le> clock (snd (?L ?w2)) - start_time \<and>
         (\<exists>evs. trace (snd (?L ?w2)) = trace ?w2 @ evs @ [Log (Timeout_waiting max_wait_time)] \<and>
                list_all (\<lambda>ev. ev = ?ev \<or> ev = Sleep 5) evs \<and>
                sleeps evs = polls evs \<and>
                int (polls evs) \<le> max 0 \<lceil>(of_int max_wait_time - (clock ?w2 - start_time)) / 5\<rceil>)"
      using "1.IH" [OF True s3_get_object_eq [symmetric] nk refl refl "1.prems"]
      by (simp add: s3_get_object_eq)
    then obtain evs where evs:
      "trace (snd (?L ?w2)) = trace ?w2 @ evs @ [Log (Timeout_waiting max_wait_time)]"
      "list_all (\<lambda>ev. ev = ?ev \<or> ev = Sleep 5) evs"
      "sleeps evs = polls evs"
      "int (polls evs) \<le> max 0 \<lceil>(of_int max_wait_time - (clock ?w2 - start_time)) / 5\<rceil>"
      by blast
    let ?x = "(of_int max_wait_time - (clock w - start_time)) / 5"
    have "of_int max_wait_time - (clock ?w2 - start_time) \<le>
          of_int max_wait_time - (clock w - start_time) - 5"
      using retry_world(2) [of w env bucket key] by simp
    then have "(of_int max_wait_time - (clock ?w2 - start_time)) / 5 \<le>
          (of_int max_wait_time - (clock w - start_time) - 5) / 5"
      by (rule divide_right_mono) simp
    also have "\<dots> = ?x - 1"
      by (simp add: diff_divide_distrib)
    finally have "(of_int max_wait_time - (clock ?w2 - start_time)) / 5 \<le> ?x - 1" .
    then have "\<lceil>(of_int max_wait_time - (clock ?w2 - start_time)) / 5\<rceil> \<le> \<lceil>?x - 1\<rceil>"
      by (rule ceiling_mono)
    then have c1: "\<lceil>(of_int max_wait_time - (clock ?w2 - start_time)) / 5\<rceil> \<le> \<lceil>?x\<rceil> - 1"
      by simp
    have "0 < ?x" using True by simp
    then have c2: "0 < \<lceil>?x\<rceil>" by simp
    from c1 c2 evs(4) have b: "int (polls evs) + 1 \<le> max 0 \<lceil>?x\<rceil>"
      by linarith
    have "trace (snd (?L w)) = trace w @ (?ev # Sleep 5 # evs) @ [Log (Timeout_waiting max_wait_time)]"
      using evs(1) eq nk by (simp add: retry_world(1))
    moreover have "list_all (\<lambda>ev. ev = ?ev \<or> ev = Sleep 5) (?ev # Sleep 5 # evs)"
      using evs(2) by simp
    moreover have "sleeps (?ev # Sleep 5 # evs) = polls (?ev # Sleep 5 # evs)"
      using evs(3) by (simp add: count_Cons)
    moreover have "int (polls (?ev # Sleep 5 # evs)) \<le> max 0 \<lceil>?x\<rceil>"
      using b by (simp add: count_Cons)
    ultimately show ?thesis
      using IH eq by (metis (no_types, lifting))
  qed
qed


lemma extract_generated_text_trace:
  "\<exists>logs. trace (snd (extract_generated_text result w)) = trace w @ logs \<and> list_all is_log logs"
  by (auto simp: extract_generated_text_def logger_def split: pyval.splits list.splits)

lemma extract_generated_text_value:
  assumes "fst (extract_generated_text result w) = Inr v" and "v \<noteq> PyNone"
    and "loads body = Inr result"
  shows "snd (extract_generated_text result w) = w \<and> v = generated_text_of loads (Inr body)"
  using assms
  by (auto simp: extract_generated_text_def generated_text_of_def split: pyval.splits list.splits)

lemma stops_at_error_logs:
  "list_all is_log logs \<Longrightarrow> stops_at_error logs"
  by (induction logs) (auto elim: is_log.elims)

lemma stops_at_error_append_logs:
  "stops_at_error evs \<Longrightarrow> list_all is_log logs \<Longrightarrow> stops_at_error (evs @ logs)"
  by (induction evs) (auto simp: stops_at_error_logs)

lemma fatal_not_log: "list_all is_log logs \<Longrightarrow> ev \<in> set logs \<Longrightarrow> \<not> is_fatal_poll ev"
  by (cases ev) (auto simp: list_all_iff)

lemma wait_loop_shape:
  "\<exists>evs. trace (snd (wait_loop env loads bucket key start_time max_wait_time w)) = trace w @ evs \<and>
     stops_at_error evs \<and>
     ((\<exists>ev \<in> set evs. is_fatal_poll ev) \<longrightarrow>
        fst (wait_loop env loads bucket key start_time max_wait_time w) = Inr PyNone \<or>
        (\<exists>e. fst (wait_loop env loads bucket key start_time max_wait_time w) = Inl e)) \<and>
     (\<forall>v. fst (wait_loop env loads bucket key start_time max_wait_time w) = Inr v \<and> v \<noteq> PyNone \<longrightarrow>
        (\<exists>reply. evs \<noteq> [] \<and> last evs = Get_object bucket key reply \<and>
                 v = generated_text_of loads reply))"
proof (induction env loads bucket key start_time max_wait_time w rule: wait_loop.induct)
  case (1 env loads bucket key start_time max_wait_time w)
  let ?L = "\<lambda>w. wait_loop env loads bucket key start_time max_wait_time w"
  let ?w1 = "snd (s3_get_object env bucket key w)"
  let ?reply = "s3_reply env w bucket key"
  have t1: "trace ?w1 = trace w @ [Get_object bucket key ?reply]"
    by (simp add: s3_get_object_eq)
  show ?case
  proof (cases "clock w - start_time < of_int max_wait_time")
    case False
    then have "?L w = (Inr PyNone, logger (Timeout_waiting max_wait_time) w)"
      by (rule wait_loop_timeout)
    then show ?thesis
      by (simp add: logger_def)
  next
    case True
    show ?thesis
    proof (cases ?reply)
      case (Inr body)
      have eq: "?L w = (case loads body of Inl e \<Rightarrow> (Inl e, ?w1)
                        | Inr result \<Rightarrow> extract_generated_text result ?w1)"
        using True Inr by (rule wait_loop_body)
      show ?thesis
      proof (cases "loads body")
        case (Inl e)
        with eq t1 Inr show ?thesis
          by simp
      next
        case res: (Inr result)
        obtain logs where logs:
          "trace (snd (extract_generated_text result ?w1)) = trace ?w1 @ logs" "list_all is_log logs"
          using extract_generated_text_trace by blast
        have tr: "trace (snd (?L w)) = trace w @ (Get_object bucket key ?reply # logs)"
          using eq res logs(1) t1 by simp
        have st: "stops_at_error (Get_object bucket key ?reply # logs)"
          using logs(2) Inr by (simp add: stops_at_error_logs)
        have nf: "\<not> (\<exists>ev \<in> set (Get_object bucket key ?reply # logs). is_fatal_poll ev)"
          using Inr fatal_not_log [OF logs(2)] by auto
        have val: "\<exists>reply. Get_object bucket key ?reply # logs \<noteq> [] \<and>
                     last (Get_object bucket key ?reply # logs) = Get_object bucket key reply \<and>
                     v = generated_text_of loads reply"
          if "fst (?L w) = Inr v \<and> v \<noteq> PyNone" for v
        proof -
          from that eq res have "fst (extract_generated_text result ?w1) = Inr v" "v \<noteq> PyNone"
            by simp_all
          from extract_generated_text_value [of result ?w1 v loads body, OF this res]
          have "snd (extract_generated_text result ?w1) = ?w1" "v = generated_text_of loads (Inr body)"
            by simp_all
          with logs(1) Inr show ?thesis
            by simp
        qed
        from tr st nf val show ?thesis
          by blast
      qed
    next
      case (Inl e)
      show ?thesis
      proof (cases "e = ClientError ''NoSuchKey''")
        case False
        have eq: "?L w = (case e of
            ClientError code \<Rightarrow> (Inr PyNone, logger (S3_error e) ?w1)
          | _ \<Rightarrow> (Inl e, ?w1))"
          using True Inl False by (rule wait_loop_fatal)
        show ?thesis
          using eq t1 Inl by (cases e) (simp_all add: logger_def)
      next
        case nk: True
        let ?w2 = "time_sleep env 5 ?w1"
        have eq: "?L w = ?L ?w2"
          using True Inl nk wait_loop_retry by simp
        from "1.IH" [OF True s3_get_object_eq [symmetric] _ refl refl] Inl nk
        obtain evs where evs:
          "trace (snd (?L ?w2)) = trace ?w2 @ evs" "stops_at_error evs"
          "(\<exists>ev \<in> set evs. is_fatal_poll ev) \<longrightarrow>
             fst (?L ?w2) = Inr PyNone \<or> (\<exists>e. fst (?L ?w2) = Inl e)"
          "\<forall>v. fst (?L ?w2) = Inr v \<and> v \<noteq> PyNone \<longrightarrow>
             (\<exists>reply. evs \<noteq> [] \<and> last evs = Get_object bucket key reply \<and>
                      v = generated_text_of loads reply)"
          by (auto simp: s3_get_object_eq)
        let ?evs = "Get_object bucket key ?reply # Sleep 5 # evs"
        have "trace (snd (?L w)) = trace w @ ?evs"
          using evs(1) eq by (simp add: retry_world(1))
        moreover have "stops_at_error ?evs"
          using evs(2) Inl nk by simp
        moreover have "(\<exists>ev \<in> set ?evs. is_fatal_poll ev) \<longrightarrow>
             fst (?L w) = Inr PyNone \<or> (\<exists>e. fst (?L w) = Inl e)"
          using evs(3) eq Inl nk by simp
        moreover have "\<forall>v. fst (?L w) = Inr v \<and> v \<noteq> PyNone \<longrightarrow>
             (\<exists>reply. ?evs \<noteq> [] \<and> last ?evs = Get_object bucket key reply \<and>
                      v = generated_text_of loads reply)"
          using evs(4) eq by auto
        ultimately show ?thesis
          by blast
      qed
    qed
  qed
qed

section \<open>\<open>wait_for_async_result\<close>: the whole call\<close>

lemma str_split1_cases:
  "str_split1 s c = [s] \<or> (\<exists>a b. str_split1 s c = [a, b])"
  by (simp add: str_split1_def)

lemma wait_for_async_result_loop:
  assumes "str_startswith output_location ''s3://''"
    and "str_split1 (drop 5 output_location) (CHR ''/'') = [bucket, key]"
  shows "wait_for_async_result env loads output_location max_wait_time w =
           try_except (wait_loop env loads bucket key (clock w) max_wait_time)
             (\<lambda>e w. (Inr PyNone, logger (Error_waiting e) w)) w"
  using assms by (simp add: wait_for_async_result_def try_except_def Let_def)

lemma wait_for_async_result_no_slash:
  assumes "str_startswith output_location ''s3://''"
    and "str_split1 (drop 5 output_location) (CHR ''/'') = [s]"
  shows "wait_for_async_result env loads output_location max_wait_time w =
           (Inr PyNone, logger (Error_waiting ValueError) w)"
  using assms by (simp add: wait_for_async_result_def try_except_def Let_def)

lemma try_except_cases:
  "(\<exists>v. fst (body w) = Inr v \<and> try_except body handler w = body w) \<or>
   (\<exists>e. fst (body w) = Inl e \<and> try_except body handler w = handler e (snd (body w)))"
  by (cases "body w"; cases "fst (body w)") (auto simp: try_except_def)

lemma wait_for_async_result_shape:
  "\<exists>evs. trace (snd (wait_for_async_result env loads output_location max_wait_time w)) = trace w @ evs \<and>
     stops_at_error evs \<and>
     ((\<exists>ev \<in> set evs. is_fatal_poll ev) \<longrightarrow>
        fst (wait_for_async_result env loads output_location max_wait_time w) = Inr PyNone) \<and>
     (\<exists>v. fst (wait_for_async_result env loads output_location max_wait_time w) = Inr v \<and>
        (v \<noteq> PyNone \<longrightarrow>
           (\<exists>bucket key reply. evs \<noteq> [] \<and> last evs = Get_object bucket key reply \<and>
              v = generated_text_of loads reply)))"
proof (cases "str_startswith output_location ''s3://''")
  case False
  then show ?thesis
    by (simp add: wait_for_async_result_def try_except_def logger_def)
next
  case True
  let ?R = "wait_for_async_result env loads output_location max_wait_time w"
  from str_split1_cases [of "drop 5 output_location" "CHR ''/''"]
  show ?thesis
  proof (elim disjE exE)
    assume "str_split1 (drop 5 output_location) (CHR ''/'') = [drop 5 output_location]"
    from wait_for_async_result_no_slash [OF True this]
    show ?thesis
      by (simp add: logger_def)
  next
    fix bucket key
    assume sp: "str_split1 (drop 5 output_location) (CHR ''/'') = [bucket, key]"
    let ?L = "wait_loop env loads bucket key (clock w) max_wait_time"
    let ?h = "\<lambda>e w. (Inr PyNone :: exn + pyval, logger (Error_waiting e) w)"
    have R: "?R = try_except ?L ?h w"
      using True sp by (rule wait_for_async_result_loop)
    obtain evs where evs:
      "trace (snd (?L w)) = trace w @ evs" "stops_at_error evs"
      "(\<exists>ev \<in> set evs. is_fatal_poll ev) \<longrightarrow> fst (?L w) = Inr PyNone \<or> (\<exists>e. fst (?L w) = Inl e)"
      "\<forall>v. fst (?L w) = Inr v \<and> v \<noteq> PyNone \<longrightarrow>
         (\<exists>reply. evs \<noteq> [] \<and> last evs = Get_object bucket key reply \<and>
                  v = generated_text_of loads reply)"
      using wait_loop_shape [of env loads bucket key "clock w" max_wait_time w] by blast
    from try_except_cases [of ?L w ?h] show ?thesis
    proof (elim disjE exE conjE)
      fix v
      assume f': "fst (?L w) = Inr v" and a: "try_except ?L ?h w = ?L w"
      have f: "fst ?R = Inr v" and s: "snd ?R = snd (?L w)"
        using R a f' by simp_all
      from evs(3) f' f have "(\<exists>ev \<in> set evs. is_fatal_poll ev) \<longrightarrow> fst ?R = Inr PyNone"
        by auto
      moreover from evs(4) f' have "v \<noteq> PyNone \<longrightarrow>
           (\<exists>bucket key reply. evs \<noteq> [] \<and> last evs = Get_object bucket key reply \<and>
              v = generated_text_of loads reply)"
        by blast
      moreover have "trace (snd ?R) = trace w @ evs"
        using s evs(1) by simp
      ultimately show ?thesis
        using evs(2) f by blast
    next
      fix e
      assume "fst (?L w) = Inl e" and a: "try_except ?L ?h w = ?h e (snd (?L w))"
      have f: "fst ?R = Inr PyNone"
        and s: "trace (snd ?R) = trace w @ (evs @ [Log (Error_waiting e)])"
        using R a evs(1) by (simp_all add: logger_def)
      have "stops_at_error (evs @ [Log (Error_waiting e)])"
        using evs(2) by (intro stops_at_error_append_logs) simp_all
      with f s show ?thesis
        by blast
    qed
  qed
qed


lemma ceiling_12_5: "\<lceil>(12::rat) / 5\<rceil> = 3"
  by (rule ceiling_unique) simp_all

text \<open>
  Claim C6. The poll interval of the code is the constant 5 (\<^verbatim>\<open>time.sleep(5)\<close>). For a
  location that parses into \<open>bucket\<close> and \<open>key\<close>, an object that never appears and a
  timeout \<open>max_wait_time\<close> that is not negative, \<open>wait_for_async_result\<close> returns \<^verbatim>\<open>None\<close>
  after logging the timeout, not before \<open>max_wait_time\<close> seconds have passed, having made
  at most \<open>\<lceil>max_wait_time / 5\<rceil>\<close> polls, each followed by one sleep of 5 seconds.
\<close>

theorem C6_timeout_bound:
  assumes "str_startswith output_location ''s3://''"
    and "str_split1 (drop 5 output_location) (CHR ''/'') = [bucket, key]"
    and "\<forall>w. s3_reply env w bucket key = Inl (ClientError ''NoSuchKey'')"
    and "0 \<le> max_wait_time"
  shows "fst (wait_for_async_result env loads output_location max_wait_time w) = Inr PyNone \<and>
         of_int max_wait_time \<le>
           clock (snd (wait_for_async_result env loads output_location max_wait_time w)) - clock w \<and>
         (\<exists>evs. trace (snd (wait_for_async_result env loads output_location max_wait_time w)) =
                  trace w @ evs @ [Log (Timeout_waiting max_wait_time)] \<and>
                list_all (\<lambda>ev. ev = Get_object bucket key (Inl (ClientError ''NoSuchKey'')) \<or> ev = Sleep 5) evs \<and>
                sleeps evs = polls evs \<and>
                int (polls evs) \<le> \<lceil>of_int max_wait_time / (5::rat)\<rceil>)"
proof -
  let ?L = "wait_loop env loads bucket key (clock w) max_wait_time"
  let ?h = "\<lambda>e w. (Inr PyNone :: exn + pyval, logger (Error_waiting e) w)"
  note n = wait_loop_never [OF assms(3), of loads "clock w" max_wait_time w]
  from n have "fst (?L w) = Inr PyNone"
    by blast
  then have "try_except ?L ?h w = ?L w"
    by (rule try_except_Inr)
  then have R: "wait_for_async_result env loads output_location max_wait_time w = ?L w"
    using wait_for_async_result_loop [OF assms(1,2)] by simp
  have "0 \<le> \<lceil>of_int max_wait_time / (5::rat)\<rceil>"
    using assms(4) by simp
  then have "max 0 \<lceil>(of_int max_wait_time - (clock w - clock w)) / 5\<rceil> =
      \<lceil>of_int max_wait_time / (5::rat)\<rceil>"
    by simp
  with n show ?thesis
    unfolding R by simp
qed

theorem C6_timeout_bound_witness:
  "fst (wait_for_async_result env_never json_loads ''s3://bucket/out.json'' 12 world0) = Inr PyNone \<and>
   12 \<le> clock (snd (wait_for_async_result env_never json_loads ''s3://bucket/out.json'' 12 world0)) \<and>
   polls (trace (snd (wait_for_async_result env_never json_loads ''s3://bucket/out.json'' 12 world0))) \<le> 3"
proof -
  have a: "str_startswith ''s3://bucket/out.json'' ''s3://''"
    by (simp add: str_startswith_def)
  have b: "str_split1 (drop 5 ''s3://bucket/out.json'') (CHR ''/'') = [''bucket'', ''out.json'']"
    by (simp add: str_split1_def)
  have c: "\<forall>w. s3_reply env_never w ''bucket'' ''out.json'' = Inl (ClientError ''NoSuchKey'')"
    by (simp add: env_never_def)
  have d: "(0::int) \<le> 12"
    by simp
  let ?R = "wait_for_async_result env_never json_loads ''s3://bucket/out.json'' 12 world0"
  from C6_timeout_bound [OF a b c d, of json_loads world0]
  obtain evs where r: "fst ?R = Inr PyNone" "of_int 12 \<le> clock (snd ?R) - clock world0"
    and evs: "trace (snd ?R) = trace world0 @ evs @ [Log (Timeout_waiting 12)]"
      "int (polls evs) \<le> \<lceil>of_int 12 / (5::rat)\<rceil>"
    by blast
  from evs(2) have "polls evs \<le> 3"
    using ceiling_12_5 by simp
  with evs(1) have "polls (trace (snd ?R)) \<le> 3"
    by (simp add: world0_def count_simps count_Cons polls_def)
  with r show ?thesis
    by (simp add: world0_def)
qed

section \<open>Failures of the remote service\<close>

lemma run_never:
  "wait_for_async_result env_never json_loads ''s3://bucket/out.json'' 12 world0 =
     (Inr PyNone,
      \<lparr>clock = 15,
       trace = [Get_object ''bucket'' ''out.json'' (Inl (ClientError ''NoSuchKey'')), Sleep 5,
                Get_object ''bucket'' ''out.json'' (Inl (ClientError ''NoSuchKey'')), Sleep 5,
                Get_object ''bucket'' ''out.json'' (Inl (ClientError ''NoSuchKey'')), Sleep 5,
                Log (Timeout_waiting 12)]\<rparr>)"
  by (simp add: wait_for_async_result_def try_except_def str_startswith_def str_split1_def
      world0_def env_never_def s3_get_object_def time_sleep_def logger_def Let_def)

lemma run_denied:
  "wait_for_async_result env_denied json_loads ''s3://bucket/out.json'' 12 world0 =
     (Inr PyNone,
      \<lparr>clock = 0,
       trace = [Get_object ''bucket'' ''out.json'' (Inl (ClientError ''AccessDenied'')),
                Log (S3_error (ClientError ''AccessDenied''))]\<rparr>)"
  by (simp add: wait_for_async_result_def try_except_def str_startswith_def str_split1_def
      world0_def env_denied_def s3_get_object_def time_sleep_def logger_def Let_def)

text \<open>
  Claim C3, as amended. When the remote object never appears, \<open>wait_for_async_result\<close>
  returns \<^verbatim>\<open>None\<close> and the last thing it did was to log the timeout. In every run, only
  log lines follow a poll whose reply is an error other than \<^verbatim>\<open>NoSuchKey\<close> (no further
  poll and no sleep), and a run with such a poll returns \<^verbatim>\<open>None\<close>. The value returned is
  the same \<^verbatim>\<open>None\<close> in both cases; they differ in the line logged.
\<close>

theorem C3_timeout_and_errors:
  "(str_startswith output_location ''s3://'' \<and>
    str_split1 (drop 5 output_location) (CHR ''/'') = [bucket, key] \<and>
    (\<forall>w. s3_reply env w bucket key = Inl (ClientError ''NoSuchKey'')) \<longrightarrow>
      fst (wait_for_async_result env loads output_location max_wait_time w) = Inr PyNone \<and>
      last (trace (snd (wait_for_async_result env loads output_location max_wait_time w))) =
        Log (Timeout_waiting max_wait_time)) \<and>
   (\<exists>evs. trace (snd (wait_for_async_result env loads output_location max_wait_time w)) =
            trace w @ evs \<and>
          stops_at_error evs \<and>
          ((\<exists>ev \<in> set evs. is_fatal_poll ev) \<longrightarrow>
             fst (wait_for_async_result env loads output_location max_wait_time w) = Inr PyNone))"
proof (intro conjI impI)
  let ?R = "wait_for_async_result env loads output_location max_wait_time w"
  assume a: "str_startswith output_location ''s3://'' \<and>
    str_split1 (drop 5 output_location) (CHR ''/'') = [bucket, key] \<and>
    (\<forall>w. s3_reply env w bucket key = Inl (ClientError ''NoSuchKey''))"
  let ?L = "wait_loop env loads bucket key (clock w) max_wait_time"
  from a have never: "\<forall>w. s3_reply env w bucket key = Inl (ClientError ''NoSuchKey'')"
    by blast
  note n = wait_loop_never [OF never, of loads "clock w" max_wait_time w]
  from n have f: "fst (?L w) = Inr PyNone"
    by blast
  then have "try_except ?L (\<lambda>e w. (Inr PyNone, logger (Error_waiting e) w)) w = ?L w"
    by (rule try_except_Inr)
  then have R: "?R = ?L w"
    using a wait_for_async_result_loop [of output_location bucket key env loads max_wait_time w]
    by simp
  from f R show "fst ?R = Inr PyNone"
    by simp
  from n obtain evs where
    "trace (snd (?L w)) = trace w @ evs @ [Log (Timeout_waiting max_wait_time)]"
    by blast
  then have "trace (snd (?L w)) = (trace w @ evs) @ [Log (Timeout_waiting max_wait_time)]"
    by simp
  then have "last (trace (snd (?L w))) = Log (Timeout_waiting max_wait_time)"
    by (simp only: last_snoc)
  with R show "last (trace (snd ?R)) = Log (Timeout_waiting max_wait_time)"
    by simp
next
  from wait_for_async_result_shape [of env loads output_location max_wait_time w]
  show "\<exists>evs. trace (snd (wait_for_async_result env loads output_location max_wait_time w)) =
            trace w @ evs \<and>
          stops_at_error evs \<and>
          ((\<exists>ev \<in> set evs. is_fatal_poll ev) \<longrightarrow>
             fst (wait_for_async_result env loads output_location max_wait_time w) = Inr PyNone)"
    by blast
qed

theorem C3_timeout_and_errors_witness:
  "fst (wait_for_async_result env_never json_loads ''s3://bucket/out.json'' 12 world0) = Inr PyNone \<and>
   last (trace (snd (wait_for_async_result env_never json_loads ''s3://bucket/out.json'' 12 world0))) =
     Log (Timeout_waiting 12) \<and>
   fst (wait_for_async_result env_denied json_loads ''s3://bucket/out.json'' 12 world0) = Inr PyNone"
proof -
  have a: "str_startswith ''s3://bucket/out.json'' ''s3://'' \<and>
      str_split1 (drop 5 ''s3://bucket/out.json'') (CHR ''/'') = [''bucket'', ''out.json''] \<and>
      (\<forall>w. s3_reply env_never w ''bucket'' ''out.json'' = Inl (ClientError ''NoSuchKey''))"
    by (simp add: str_startswith_def str_split1_def env_never_def)
  note t1 = C3_timeout_and_errors [of "''s3://bucket/out.json''" "''bucket''" "''out.json''"
      env_never json_loads 12 world0]
  from t1 a have n: "fst (wait_for_async_result env_never json_loads ''s3://bucket/out.json'' 12 world0) = Inr PyNone \<and>
      last (trace (snd (wait_for_async_result env_never json_loads ''s3://bucket/out.json'' 12 world0))) =
        Log (Timeout_waiting 12)"
    by blast
  let ?D = "wait_for_async_result env_denied json_loads ''s3://bucket/out.json'' 12 world0"
  note t2 = C3_timeout_and_errors [of "''s3://bucket/out.json''" "''bucket''" "''out.json''"
      env_denied json_loads 12 world0]
  then obtain evs where evs: "trace (snd ?D) = trace world0 @ evs"
    "(\<exists>ev \<in> set evs. is_fatal_poll ev) \<longrightarrow> fst ?D = Inr PyNone"
    by blast
  from evs(1) have "evs = [Get_object ''bucket'' ''out.json'' (Inl (ClientError ''AccessDenied'')),
                Log (S3_error (ClientError ''AccessDenied''))]"
    unfolding run_denied by (simp add: world0_def)
  then have "\<exists>ev \<in> set evs. is_fatal_poll ev"
    by simp
  with evs(2) have "fst ?D = Inr PyNone"
    by blast
  with n show ?thesis
    by blast
qed

text \<open>
  The claim as stated fails: a run that times out and a run that the bucket refuses
  return the same value, so the caller cannot tell them apart by the result.
\<close>

theorem C3_indistinguishable_counterexample:
  "fst (wait_for_async_result env_never json_loads ''s3://bucket/out.json'' 12 world0) =
     fst (wait_for_async_result env_denied json_loads ''s3://bucket/out.json'' 12 world0) \<and>
   last (trace (snd (wait_for_async_result env_never json_loads ''s3://bucket/out.json'' 12 world0))) =
     Log (Timeout_waiting 12) \<and>
   last (trace (snd (wait_for_async_result env_denied json_loads ''s3://bucket/out.json'' 12 world0))) =
     Log (S3_error (ClientError ''AccessDenied''))"
  by (simp add: run_never run_denied)


lemma invoke_sync_endpoint_shape:
  "\<exists>evs. trace (snd (invoke_sync_endpoint self env loads payload w)) = trace w @ evs \<and>
     (generated_text_of loads (sync_reply env w (endpoint_name self) payload) \<noteq> PyNone \<longrightarrow>
        evs \<noteq> [] \<and>
        last evs = Invoke_endpoint (endpoint_name self) payload
                     (sync_reply env w (endpoint_name self) payload))"
proof -
  obtain logs where l:
    "trace (snd (invoke_sync_endpoint self env loads payload w)) =
       trace w @ Invoke_endpoint (endpoint_name self) payload
                   (sync_reply env w (endpoint_name self) payload) # logs"
    "generated_text_of loads (sync_reply env w (endpoint_name self) payload) \<noteq> PyNone \<longrightarrow> logs = []"
    using invoke_sync_endpoint_trace by blast
  then show ?thesis
    by auto
qed

lemma infer_sync_path:
  "infer self env loads prompt False w =
     invoke_sync_endpoint self env loads (prepare_llama_payload self prompt)
       (logger Using_sync_endpoint w)"
proof -
  let ?s = "invoke_sync_endpoint self env loads (prepare_llama_payload self prompt)
       (logger Using_sync_endpoint w)"
  have "fst ?s = Inr (generated_text_of loads
      (sync_reply env (logger Using_sync_endpoint w) (endpoint_name self)
         (prepare_llama_payload self prompt)))"
    by (rule invoke_sync_endpoint_result)
  then have "try_except
      (\<lambda>w. invoke_sync_endpoint self env loads (prepare_llama_payload self prompt)
             (logger Using_sync_endpoint w))
      (\<lambda>e w. (Inr PyNone, logger (Error_during_inference e) w)) w = ?s"
    by (rule try_except_Inr)
  then show ?thesis
    by (simp add: infer_def Let_def)
qed

lemma infer_async_path:
  assumes "fst (invoke_async_endpoint self env (prepare_llama_payload self prompt)
                  (logger Using_async_endpoint w)) = Inr (Some loc)"
    and "loc \<noteq> []"
  shows "infer self env loads prompt True w =
           wait_for_async_result env loads loc 300
             (snd (invoke_async_endpoint self env (prepare_llama_payload self prompt)
                     (logger Using_async_endpoint w)))"
proof -
  let ?a = "invoke_async_endpoint self env (prepare_llama_payload self prompt)
                  (logger Using_async_endpoint w)"
  let ?W = "wait_for_async_result env loads loc 300 (snd ?a)"
  obtain v where "fst ?W = Inr v"
    using wait_for_async_result_shape [of env loads loc 300 "snd ?a"] by blast
  with assms show ?thesis
    by (cases ?a; cases ?W) (simp add: infer_def try_except_def Let_def)
qed

lemma infer_shape:
  "\<exists>v evs. fst (infer self env loads prompt use_async w) = Inr v \<and>
     trace (snd (infer self env loads prompt use_async w)) = trace w @ evs \<and>
     (v \<noteq> PyNone \<longrightarrow>
        (\<exists>reply. evs \<noteq> [] \<and>
           ((\<exists>bucket key. last evs = Get_object bucket key reply) \<or>
            (\<exists>name payload. last evs = Invoke_endpoint name payload reply)) \<and>
           v = generated_text_of loads reply))"
proof -
  let ?p = "prepare_llama_payload self prompt"
  have sync: "\<exists>v evs. fst (invoke_sync_endpoint self env loads ?p w') = Inr v \<and>
     trace (snd (invoke_sync_endpoint self env loads ?p w')) = trace w @ evs \<and>
     (v \<noteq> PyNone \<longrightarrow>
        (\<exists>reply. evs \<noteq> [] \<and>
           ((\<exists>bucket key. last evs = Get_object bucket key reply) \<or>
            (\<exists>name payload. last evs = Invoke_endpoint name payload reply)) \<and>
           v = generated_text_of loads reply))"
    if w': "trace w' = trace w @ pre" for w' pre
  proof -
    let ?reply = "sync_reply env w' (endpoint_name self) ?p"
    obtain evs where evs:
      "trace (snd (invoke_sync_endpoint self env loads ?p w')) = trace w' @ evs"
      "generated_text_of loads ?reply \<noteq> PyNone \<longrightarrow>
         evs \<noteq> [] \<and> last evs = Invoke_endpoint (endpoint_name self) ?p ?reply"
      using invoke_sync_endpoint_shape by blast
    have "fst (invoke_sync_endpoint self env loads ?p w') = Inr (generated_text_of loads ?reply)"
      by (rule invoke_sync_endpoint_result)
    moreover have "trace (snd (invoke_sync_endpoint self env loads ?p w')) = trace w @ (pre @ evs)"
      using evs(1) w' by simp
    moreover have "generated_text_of loads ?reply \<noteq> PyNone \<longrightarrow>
        pre @ evs \<noteq> [] \<and> last (pre @ evs) = Invoke_endpoint (endpoint_name self) ?p ?reply"
      using evs(2) by simp
    ultimately show ?thesis
      by blast
  qed
  show ?thesis
  proof (cases use_async)
    case False
    have "trace (logger Using_sync_endpoint w) = trace w @ [Log Using_sync_endpoint]"
      by (simp add: logger_def)
    from sync [OF this] False show ?thesis
      by (simp add: infer_sync_path)
  next
    case True
    let ?a = "invoke_async_endpoint self env ?p (logger Using_async_endpoint w)"
    obtain logs where "trace (snd ?a) = trace (logger Using_async_endpoint w) @
        Invoke_endpoint_async (endpoint_name self) ?p
          (async_reply env (logger Using_async_endpoint w) (endpoint_name self) ?p) # logs"
      using invoke_async_endpoint_trace by blast
    then have ta: "trace (snd ?a) = trace w @ (Log Using_async_endpoint #
        Invoke_endpoint_async (endpoint_name self) ?p
          (async_reply env (logger Using_async_endpoint w) (endpoint_name self) ?p) # logs)"
      by (simp add: logger_def)
    obtain ol where ol: "fst ?a = Inr ol"
      using invoke_async_endpoint_result by blast
    show ?thesis
    proof (cases "ol = None \<or> ol = Some []")
      case fb: True
      have "trace (logger Async_failed_falling_back (snd ?a)) = trace w @ (Log Using_async_endpoint #
        Invoke_endpoint_async (endpoint_name self) ?p
          (async_reply env (logger Using_async_endpoint w) (endpoint_name self) ?p) # logs @
          [Log Async_failed_falling_back])"
        using ta by (simp add: logger_def)
      from sync [OF this] infer_fallback [OF ol fb, of loads] True show ?thesis
        by simp
    next
      case False
      then obtain loc where loc: "ol = Some loc" "loc \<noteq> []"
        by (cases ol) auto
      let ?W = "wait_for_async_result env loads loc 300 (snd ?a)"
      have W: "infer self env loads prompt True w = ?W"
        using ol loc by (intro infer_async_path) simp_all
      obtain evs v where evs: "trace (snd ?W) = trace (snd ?a) @ evs" "fst ?W = Inr v"
        "v \<noteq> PyNone \<longrightarrow>
           (\<exists>bucket key reply. evs \<noteq> [] \<and> last evs = Get_object bucket key reply \<and>
              v = generated_text_of loads reply)"
        using wait_for_async_result_shape [of env loads loc 300 "snd ?a"] by blast
      let ?pre = "Log Using_async_endpoint #
        Invoke_endpoint_async (endpoint_name self) ?p
          (async_reply env (logger Using_async_endpoint w) (endpoint_name self) ?p) # logs"
      have c1: "trace (snd ?W) = trace w @ (?pre @ evs)"
        using evs(1) ta by simp
      have c2: "v \<noteq> PyNone \<longrightarrow>
        (\<exists>reply. ?pre @ evs \<noteq> [] \<and>
           ((\<exists>bucket key. last (?pre @ evs) = Get_object bucket key reply) \<or>
            (\<exists>name payload. last (?pre @ evs) = Invoke_endpoint name payload reply)) \<and>
           v = generated_text_of loads reply)"
      proof
        assume "v \<noteq> PyNone"
        with evs(3) obtain bucket key reply where
          "evs \<noteq> []" "last evs = Get_object bucket key reply" "v = generated_text_of loads reply"
          by blast
        then have "?pre @ evs \<noteq> [] \<and> last (?pre @ evs) = Get_object bucket key reply \<and>
            v = generated_text_of loads reply"
          by simp
        then show "\<exists>reply. ?pre @ evs \<noteq> [] \<and>
           ((\<exists>bucket key. last (?pre @ evs) = Get_object bucket key reply) \<or>
            (\<exists>name payload. last (?pre @ evs) = Invoke_endpoint name payload reply)) \<and>
           v = generated_text_of loads reply"
          by blast
      qed
      from True have ua: "use_async = True"
        by simp
      show ?thesis
        unfolding ua W
        by (intro exI [of _ v] exI [of _ "?pre @ evs"] conjI) (fact evs(2) c1 c2)+
    qed
  qed
qed


lemma run_infer_denied:
  "trace (snd (infer client0 env_denied json_loads ''Extract the total.'' True world0)) =
     [Log Using_async_endpoint,
      Invoke_endpoint_async ''llama-endpoint'' (prepare_llama_payload client0 ''Extract the total.'')
        (Inr (Some ''s3://bucket/out.json'')),
      Get_object ''bucket'' ''out.json'' (Inl (ClientError ''AccessDenied'')),
      Log (S3_error (ClientError ''AccessDenied''))]"
proof -
  let ?p = "prepare_llama_payload client0 ''Extract the total.''"
  let ?a = "invoke_async_endpoint client0 env_denied ?p (logger Using_async_endpoint world0)"
  have a: "?a = (Inr (Some ''s3://bucket/out.json''),
      \<lparr>clock = 0, trace = [Log Using_async_endpoint,
        Invoke_endpoint_async ''llama-endpoint'' ?p (Inr (Some ''s3://bucket/out.json''))]\<rparr>)"
    by (simp add: invoke_async_endpoint_def try_except_def sagemaker_invoke_endpoint_async_def
        env_denied_def logger_def world0_def client0_def LLMInference_def Let_def)
  have "infer client0 env_denied json_loads ''Extract the total.'' True world0 =
      wait_for_async_result env_denied json_loads ''s3://bucket/out.json'' 300 (snd ?a)"
    by (rule infer_async_path) (simp_all add: a)
  then show ?thesis
    unfolding a
    by (simp add: wait_for_async_result_def try_except_def str_startswith_def str_split1_def
        env_denied_def s3_get_object_def logger_def Let_def)
qed

text \<open>
  Claim C9. Each of \<open>invoke_async_endpoint\<close>, \<open>invoke_sync_endpoint\<close>,
  \<open>wait_for_async_result\<close> and \<open>infer\<close> returns a value on every input and in every
  environment: no exception reaches the caller. \<open>invoke_async_endpoint\<close> returns \<^verbatim>\<open>None\<close>
  when its call raises; \<open>invoke_sync_endpoint\<close> returns \<^verbatim>\<open>None\<close> when its call raises or
  the body does not decode; \<open>wait_for_async_result\<close> and \<open>infer\<close> return a value other than
  \<^verbatim>\<open>None\<close> only as the generated text of the reply to the last remote call they made,
  and that text is \<^verbatim>\<open>None\<close> for a reply that is an exception, a body that does not decode
  and a body that decodes to neither a dict nor a list headed by a dict.
\<close>

theorem C9_no_exception_escapes:
  "(\<exists>ol. fst (invoke_async_endpoint self env payload w) = Inr ol \<and>
      ((\<exists>e. async_reply env w (endpoint_name self) payload = Inl e) \<longrightarrow> ol = None)) \<and>
   (\<exists>v. fst (invoke_sync_endpoint self env loads payload w) = Inr v \<and>
      ((\<exists>e. sync_reply env w (endpoint_name self) payload = Inl e) \<or>
       (\<exists>body e. sync_reply env w (endpoint_name self) payload = Inr body \<and> loads body = Inl e)
       \<longrightarrow> v = PyNone)) \<and>
   (\<exists>v evs. fst (wait_for_async_result env loads output_location max_wait_time w) = Inr v \<and>
      trace (snd (wait_for_async_result env loads output_location max_wait_time w)) = trace w @ evs \<and>
      (v \<noteq> PyNone \<longrightarrow>
         (\<exists>reply. evs \<noteq> [] \<and> (\<exists>bucket key. last evs = Get_object bucket key reply) \<and>
            v = generated_text_of loads reply))) \<and>
   (\<exists>v evs. fst (infer self env loads prompt use_async w) = Inr v \<and>
      trace (snd (infer self env loads prompt use_async w)) = trace w @ evs \<and>
      (v \<noteq> PyNone \<longrightarrow>
         (\<exists>reply. evs \<noteq> [] \<and>
            ((\<exists>bucket key. last evs = Get_object bucket key reply) \<or>
             (\<exists>name payload. last evs = Invoke_endpoint name payload reply)) \<and>
            v = generated_text_of loads reply))) \<and>
   generated_text_of loads (Inl e) = PyNone \<and>
   (loads body = Inl e \<longrightarrow> generated_text_of loads (Inr body) = PyNone) \<and>
   (loads body = Inr result \<and> (\<forall>d xs. result \<noteq> PyList (PyDict d # xs)) \<and> (\<forall>d. result \<noteq> PyDict d)
      \<longrightarrow> generated_text_of loads (Inr body) = PyNone)"
proof (intro conjI)
  show "\<exists>ol. fst (invoke_async_endpoint self env payload w) = Inr ol \<and>
      ((\<exists>e. async_reply env w (endpoint_name self) payload = Inl e) \<longrightarrow> ol = None)"
    unfolding invoke_async_endpoint_result by auto
  show "\<exists>v. fst (invoke_sync_endpoint self env loads payload w) = Inr v \<and>
      ((\<exists>e. sync_reply env w (endpoint_name self) payload = Inl e) \<or>
       (\<exists>body e. sync_reply env w (endpoint_name self) payload = Inr body \<and> loads body = Inl e)
       \<longrightarrow> v = PyNone)"
    unfolding invoke_sync_endpoint_result by (auto simp: generated_text_of_def)
  show "\<exists>v evs. fst (wait_for_async_result env loads output_location max_wait_time w) = Inr v \<and>
      trace (snd (wait_for_async_result env loads output_location max_wait_time w)) = trace w @ evs \<and>
      (v \<noteq> PyNone \<longrightarrow>
         (\<exists>reply. evs \<noteq> [] \<and> (\<exists>bucket key. last evs = Get_object bucket key reply) \<and>
            v = generated_text_of loads reply))"
    using wait_for_async_result_shape [of env loads output_location max_wait_time w] by blast
  show "\<exists>v evs. fst (infer self env loads prompt use_async w) = Inr v \<and>
      trace (snd (infer self env loads prompt use_async w)) = trace w @ evs \<and>
      (v \<noteq> PyNone \<longrightarrow>
         (\<exists>reply. evs \<noteq> [] \<and>
            ((\<exists>bucket key. last evs = Get_object bucket key reply) \<or>
             (\<exists>name payload. last evs = Invoke_endpoint name payload reply)) \<and>
            v = generated_text_of loads reply))"
    by (rule infer_shape)
  show "generated_text_of loads (Inl e) = PyNone"
    by (simp add: generated_text_of_def)
  show "loads body = Inl e \<longrightarrow> generated_text_of loads (Inr body) = PyNone"
    by (simp add: generated_text_of_def)
  show "loads body = Inr result \<and> (\<forall>d xs. result \<noteq> PyList (PyDict d # xs)) \<and> (\<forall>d. result \<noteq> PyDict d)
      \<longrightarrow> generated_text_of loads (Inr body) = PyNone"
    by (auto simp: generated_text_of_def split: pyval.splits list.splits)
qed

theorem C9_no_exception_escapes_witness:
  "fst (invoke_async_endpoint client0 env_never (prepare_llama_payload client0 ''Extract the total.'')
          world0) = Inr None \<and>
   fst (invoke_sync_endpoint client0 env_denied json_loads
          (prepare_llama_payload client0 ''Extract the total.'') world0) = Inr PyNone \<and>
   fst (wait_for_async_result env_denied json_loads ''s3://bucket/out.json'' 12 world0) = Inr PyNone \<and>
   fst (infer client0 env_denied json_loads ''Extract the total.'' True world0) = Inr PyNone"
proof -
  let ?p = "prepare_llama_payload client0 ''Extract the total.''"
  note t1 = C9_no_exception_escapes [of client0 env_never ?p world0 json_loads
      "''s3://bucket/out.json''" 12 "''Extract the total.''" True]
  note t2 = C9_no_exception_escapes [of client0 env_denied ?p world0 json_loads
      "''s3://bucket/out.json''" 12 "''Extract the total.''" True]
  have "\<exists>e. async_reply env_never world0 (endpoint_name client0) ?p = Inl e"
    by (simp add: env_never_def)
  with t1 [THEN conjunct1]
  have a: "fst (invoke_async_endpoint client0 env_never ?p world0) = Inr None"
    by blast
  have "\<exists>e. sync_reply env_denied world0 (endpoint_name client0) ?p = Inl e"
    by (simp add: env_denied_def)
  with t2 [THEN conjunct2, THEN conjunct1]
  have b: "fst (invoke_sync_endpoint client0 env_denied json_loads ?p world0) = Inr PyNone"
    by blast
  let ?W = "wait_for_async_result env_denied json_loads ''s3://bucket/out.json'' 12 world0"
  from t2 [THEN conjunct2, THEN conjunct2, THEN conjunct1]
  obtain v evs where w: "fst ?W = Inr v" "trace (snd ?W) = trace world0 @ evs"
    "v \<noteq> PyNone \<longrightarrow> (\<exists>reply. evs \<noteq> [] \<and> (\<exists>bucket key. last evs = Get_object bucket key reply) \<and>
            v = generated_text_of json_loads reply)"
    by blast
  from w(2) have "last evs = Log (S3_error (ClientError ''AccessDenied''))"
    unfolding run_denied by (auto simp: world0_def)
  with w(3) have "v = PyNone"
    by auto
  with w(1) have c: "fst ?W = Inr PyNone"
    by simp
  let ?I = "infer client0 env_denied json_loads ''Extract the total.'' True world0"
  from t2 [THEN conjunct2, THEN conjunct2, THEN conjunct2, THEN conjunct1]
  obtain v' evs' where i: "fst ?I = Inr v'" "trace (snd ?I) = trace world0 @ evs'"
    "v' \<noteq> PyNone \<longrightarrow> (\<exists>reply. evs' \<noteq> [] \<and>
            ((\<exists>bucket key. last evs' = Get_object bucket key reply) \<or>
             (\<exists>name payload. last evs' = Invoke_endpoint name payload reply)) \<and>
            v' = generated_text_of json_loads reply)"
    by blast
  from i(2) have "last evs' = Log (S3_error (ClientError ''AccessDenied''))"
    unfolding run_infer_denied by (auto simp: world0_def)
  with i(3) have "v' = PyNone"
    by auto
  with i(1) have d: "fst ?I = Inr PyNone"
    by simp
  from a b c d show ?thesis
    by blast
qed

section \<open>The parsers of model output\<close>

text \<open>
  A parse failure as the specification words it, \<^verbatim>\<open>ParseFailure(original_text)\<close>: in the
  code, a dict that holds the text under \<^verbatim>\<open>raw_response\<close>.
\<close>

definition is_parse_failure :: "pyval \<Rightarrow> string \<Rightarrow> bool" where
  "is_parse_failure v text =
     (case v of PyDict d \<Rightarrow> map_of d ''raw_response'' = Some (PyStr text) | _ \<Rightarrow> False)"

lemma first_index_less: "c \<in> set s \<Longrightarrow> first_index s c < length s"
  by (induction s) (auto simp: first_index_def)

lemma first_index_nth: "c \<in> set s \<Longrightarrow> s ! first_index s c = c"
  by (induction s) (auto simp: first_index_def)

lemma str_find_first_index:
  "str_find s c = (if c \<in> set s then int (first_index s c) else - 1)"
  by (induction s) (auto simp: first_index_def Let_def)

lemma last_index_first_index_rev:
  "last_index s c = length s - 1 - first_index (rev s) c"
  by (simp add: last_index_def first_index_def)

lemma last_index_less: "c \<in> set s \<Longrightarrow> last_index s c < length s"
  using first_index_less [of c "rev s"] by (cases s) (auto simp: last_index_first_index_rev)

lemma last_index_nth: "c \<in> set s \<Longrightarrow> s ! last_index s c = c"
proof -
  assume c: "c \<in> set s"
  then have l: "first_index (rev s) c < length s"
    using first_index_less [of c "rev s"] by simp
  then have "rev s ! first_index (rev s) c = s ! (length s - Suc (first_index (rev s) c))"
    by (rule rev_nth)
  moreover have "rev s ! first_index (rev s) c = c"
    using c first_index_nth [of c "rev s"] by simp
  ultimately show ?thesis
    by (simp add: last_index_first_index_rev)
qed

lemma str_rfind_last_index:
  "str_rfind s c = (if c \<in> set s then int (last_index s c) else - 1)"
proof (cases "c \<in> set s")
  case False
  then show ?thesis
    by (simp add: str_rfind_def str_find_first_index)
next
  case True
  then have "first_index (rev s) c < length s"
    using first_index_less [of c "rev s"] by simp
  with True show ?thesis
    by (simp add: str_rfind_def str_find_first_index last_index_first_index_rev Let_def)
qed

text \<open>The test and the slice of extract_thinker.py against the specification's words.\<close>

lemma brace_test:
  "(str_find s (CHR ''{'') \<noteq> - 1 \<and> str_rfind s (CHR ''}'') + 1 > str_find s (CHR ''{'')) =
   (CHR ''{'' \<in> set s \<and> CHR ''}'' \<in> set s \<and> first_index s (CHR ''{'') < last_index s (CHR ''}''))"
proof (cases "CHR ''{'' \<in> set s \<and> CHR ''}'' \<in> set s")
  case False
  then show ?thesis
    by (auto simp: str_find_first_index str_rfind_last_index)
next
  case True
  then have nth: "s ! first_index s (CHR ''{'') = CHR ''{''" "s ! last_index s (CHR ''}'') = CHR ''}''"
    by (simp_all add: first_index_nth last_index_nth)
  have "first_index s (CHR ''{'') \<noteq> last_index s (CHR ''}'')"
  proof
    assume "first_index s (CHR ''{'') = last_index s (CHR ''}'')"
    with nth have "CHR ''{'' = CHR ''}''"
      by simp
    then show False
      by simp
  qed
  with True show ?thesis
    by (auto simp: str_find_first_index str_rfind_last_index)
qed

lemma brace_slice:
  assumes "CHR ''{'' \<in> set s" "CHR ''}'' \<in> set s"
    and "first_index s (CHR ''{'') < last_index s (CHR ''}'')"
  shows "py_slice s (str_find s (CHR ''{'')) (str_rfind s (CHR ''}'') + 1) =
           take (last_index s (CHR ''}'') + 1 - first_index s (CHR ''{''))
             (drop (first_index s (CHR ''{'')) s)"
proof -
  have "last_index s (CHR ''}'') < length s"
    using assms(2) by (rule last_index_less)
  moreover have "nat (int (last_index s (CHR ''}'')) + 1 - int (first_index s (CHR ''{''))) =
      last_index s (CHR ''}'') + 1 - first_index s (CHR ''{'')"
    using assms(3) by linarith
  ultimately show ?thesis
    using assms by (simp add: py_slice_def str_find_first_index str_rfind_last_index Let_def min_def)
qed

lemma extract_with_prompt_candidate:
  "(if str_find response (CHR ''{'') \<noteq> - 1 \<and>
       str_rfind response (CHR ''}'') + 1 > str_find response (CHR ''{'')
    then loads (py_slice response (str_find response (CHR ''{''))
                  (str_rfind response (CHR ''}'') + 1))
    else loads (str_strip response)) = loads (spec_candidate response)"
  using brace_slice [of response]
  by (simp only: brace_test) (simp add: spec_candidate_def)


lemma scenario_candidate:
  \<open>spec_candidate ''Sure! Here is the result: {"a":1} Hope that helps.'' = ''{"a":1}''\<close>
  by code_simp

lemma scenario_fence_stripped:
  \<open>fence_stripped ''Sure! Here is the result: {"a":1} Hope that helps.'' =
     ''Sure! Here is the result: {"a":1} Hope that helps.''\<close>
  by code_simp

lemma scenario_object: \<open>json_loads ''{"a":1}'' = Inr (PyDict [(''a'', PyInt 1)])\<close>
  by code_simp

lemma scenario_whole_text:
  \<open>json_loads ''Sure! Here is the result: {"a":1} Hope that helps.'' = Inl JSONDecodeError\<close>
  by code_simp

lemma hello_fence_stripped: "fence_stripped ''hello'' = ''hello''"
  by code_simp

lemma hello_candidate: "spec_candidate ''hello'' = ''hello''"
  by code_simp

lemma hello_not_json: "json_loads ''hello'' = Inl JSONDecodeError"
  by code_simp

lemma extract_json_from_response_eq:
  "extract_json_from_response loads response =
     (case loads (fence_stripped response) of
        Inr v \<Rightarrow> (Inr v, [])
      | Inl e \<Rightarrow> if e = JSONDecodeError then (Inr PyNone, [JSON_decode_error_line e]) else (Inl e, []))"
  by (simp add: extract_json_from_response_def fence_stripped_def Let_def)

text \<open>
  Claim C1, as amended. The ending of \<open>extract_with_prompt\<close> in extract_thinker.py takes
  the candidate of the specification (from the first \<^verbatim>\<open>{\<close> to the last \<^verbatim>\<open>}\<close> when the
  first precedes the last, else the whole text trimmed) from the response as it is, with
  no fence stripped, and returns what parsing the candidate gives. The ending in
  extract_thinker_local_llama.py does the same whenever a first \<^verbatim>\<open>{\<close> precedes a last
  \<^verbatim>\<open>}\<close>. \<open>extract_json_from_response\<close> of parse.py strips fences and quote runs and parses
  the whole of what is left, without looking for braces.
\<close>

theorem C1_candidate_selection:
  "extract_with_prompt loads response =
     (case loads (spec_candidate response) of
        Inr v \<Rightarrow> Inr v
      | Inl e \<Rightarrow>
          if e = JSONDecodeError
          then Inr (PyDict [(''error'', PyStr ''Could not parse JSON''),
                            (''raw_response'', PyStr response)])
          else Inl e) \<and>
   (CHR ''{'' \<in> set response \<and> CHR ''}'' \<in> set response \<and>
    first_index response (CHR ''{'') < last_index response (CHR ''}'') \<longrightarrow>
      extract_with_prompt_local_llama loads response =
        (case loads (spec_candidate response) of
           Inr v \<Rightarrow> Inr v
         | Inl e \<Rightarrow> Inr (PyDict [(''raw_response'', PyStr response)]))) \<and>
   fst (extract_json_from_response loads response) =
     (case loads (fence_stripped response) of
        Inr v \<Rightarrow> Inr v
      | Inl e \<Rightarrow> if e = JSONDecodeError then Inr PyNone else Inl e)"
proof (intro conjI impI)
  show "extract_with_prompt loads response =
     (case loads (spec_candidate response) of
        Inr v \<Rightarrow> Inr v
      | Inl e \<Rightarrow>
          if e = JSONDecodeError
          then Inr (PyDict [(''error'', PyStr ''Could not parse JSON''),
                            (''raw_response'', PyStr response)])
          else Inl e)"
    unfolding extract_with_prompt_def Let_def extract_with_prompt_candidate ..
next
  assume a: "CHR ''{'' \<in> set response \<and> CHR ''}'' \<in> set response \<and>
    first_index response (CHR ''{'') < last_index response (CHR ''}'')"
  then have "py_slice response (str_find response (CHR ''{'')) (str_rfind response (CHR ''}'') + 1) =
      spec_candidate response"
    using brace_slice [of response] by (simp add: spec_candidate_def)
  moreover have "str_find response (CHR ''{'') \<noteq> - 1 \<and> str_rfind response (CHR ''}'') + 1 \<noteq> - 1"
    using a by (simp add: str_find_first_index str_rfind_last_index)
  ultimately show "extract_with_prompt_local_llama loads response =
        (case loads (spec_candidate response) of
           Inr v \<Rightarrow> Inr v
         | Inl e \<Rightarrow> Inr (PyDict [(''raw_response'', PyStr response)]))"
    by (simp add: extract_with_prompt_local_llama_def Let_def)
next
  show "fst (extract_json_from_response loads response) =
     (case loads (fence_stripped response) of
        Inr v \<Rightarrow> Inr v
      | Inl e \<Rightarrow> if e = JSONDecodeError then Inr PyNone else Inl e)"
    by (simp add: extract_json_from_response_eq split: sum.splits)
qed

theorem C1_candidate_selection_witness:
  \<open>extract_with_prompt json_loads ''Sure! Here is the result: {"a":1} Hope that helps.'' =
     Inr (PyDict [(''a'', PyInt 1)]) \<and>
   extract_with_prompt_local_llama json_loads ''Sure! Here is the result: {"a":1} Hope that helps.'' =
     Inr (PyDict [(''a'', PyInt 1)])\<close>
proof -
  let ?X = \<open>''Sure! Here is the result: {"a":1} Hope that helps.''\<close>
  note t = C1_candidate_selection [of json_loads ?X]
  have b: "CHR ''{'' \<in> set ?X \<and> CHR ''}'' \<in> set ?X \<and>
      first_index ?X (CHR ''{'') < last_index ?X (CHR ''}'')"
    by (simp add: first_index_def last_index_def)
  from t [THEN conjunct1] have "extract_with_prompt json_loads ?X = Inr (PyDict [(''a'', PyInt 1)])"
    by (simp add: scenario_candidate scenario_object)
  moreover from t [THEN conjunct2, THEN conjunct1] b
  have "extract_with_prompt_local_llama json_loads ?X = Inr (PyDict [(''a'', PyInt 1)])"
    by (simp add: scenario_candidate scenario_object)
  ultimately show ?thesis
    by simp
qed

text \<open>
  The claim as stated fails on parse.py: for the specification's own scenario the
  candidate between the braces parses to \<^verbatim>\<open>{a: 1}\<close>, and \<open>extract_json_from_response\<close>
  returns \<^verbatim>\<open>None\<close>.
\<close>

theorem C1_no_brace_scan_counterexample:
  \<open>json_loads (spec_candidate (fence_stripped ''Sure! Here is the result: {"a":1} Hope that helps.'')) =
     Inr (PyDict [(''a'', PyInt 1)]) \<and>
   fst (extract_json_from_response json_loads ''Sure! Here is the result: {"a":1} Hope that helps.'') =
     Inr PyNone\<close>
  by (simp add: scenario_fence_stripped scenario_candidate scenario_object
      extract_json_from_response_eq scenario_whole_text)


text \<open>
  Claim C2, as amended. When the candidate fails to parse, in particular for a text with
  no \<^verbatim>\<open>{\<close> or no \<^verbatim>\<open>}\<close> whose trimmed text is not JSON, \<open>extract_with_prompt\<close> of
  extract_thinker.py returns the dict with \<^verbatim>\<open>error\<close> and, under \<^verbatim>\<open>raw_response\<close>, the
  response unchanged. The ending in extract_thinker_local_llama.py returns either a parsed
  value or the dict that holds the response under \<^verbatim>\<open>raw_response\<close>.
  \<open>extract_json_from_response\<close> of parse.py prints the decode error and returns \<^verbatim>\<open>None\<close>,
  which carries no text. None of them raises.
\<close>

theorem C2_parse_failure_keeps_text:
  "(loads (spec_candidate response) = Inl JSONDecodeError \<longrightarrow>
      extract_with_prompt loads response =
        Inr (PyDict [(''error'', PyStr ''Could not parse JSON''), (''raw_response'', PyStr response)]) \<and>
      (\<forall>v. extract_with_prompt loads response = Inr v \<longrightarrow> is_parse_failure v response)) \<and>
   ((CHR ''{'' \<notin> set response \<or> CHR ''}'' \<notin> set response) \<and>
    loads (str_strip response) = Inl JSONDecodeError \<longrightarrow>
      extract_with_prompt loads response =
        Inr (PyDict [(''error'', PyStr ''Could not parse JSON''), (''raw_response'', PyStr response)])) \<and>
   (extract_with_prompt_local_llama loads response = Inr (PyDict [(''raw_response'', PyStr response)]) \<or>
    (\<exists>v. loads (py_slice response (str_find response (CHR ''{''))
                 (str_rfind response (CHR ''}'') + 1)) = Inr v \<and>
         extract_with_prompt_local_llama loads response = Inr v)) \<and>
   (loads (fence_stripped response) = Inl JSONDecodeError \<longrightarrow>
      extract_json_from_response loads response =
        (Inr PyNone, [JSON_decode_error_line JSONDecodeError]))"
proof (intro conjI impI)
  note t = extract_with_prompt_candidate [of response loads]
  assume a: "loads (spec_candidate response) = Inl JSONDecodeError"
  show e: "extract_with_prompt loads response =
        Inr (PyDict [(''error'', PyStr ''Could not parse JSON''), (''raw_response'', PyStr response)])"
    unfolding extract_with_prompt_def Let_def t using a by simp
  show "\<forall>v. extract_with_prompt loads response = Inr v \<longrightarrow> is_parse_failure v response"
    unfolding e by (simp add: is_parse_failure_def)
next
  assume a: "(CHR ''{'' \<notin> set response \<or> CHR ''}'' \<notin> set response) \<and>
    loads (str_strip response) = Inl JSONDecodeError"
  then have "spec_candidate response = str_strip response"
    by (auto simp: spec_candidate_def)
  with a have "loads (spec_candidate response) = Inl JSONDecodeError"
    by simp
  then show "extract_with_prompt loads response =
        Inr (PyDict [(''error'', PyStr ''Could not parse JSON''), (''raw_response'', PyStr response)])"
    unfolding extract_with_prompt_def Let_def extract_with_prompt_candidate by simp
next
  show "extract_with_prompt_local_llama loads response = Inr (PyDict [(''raw_response'', PyStr response)]) \<or>
    (\<exists>v. loads (py_slice response (str_find response (CHR ''{''))
                 (str_rfind response (CHR ''}'') + 1)) = Inr v \<and>
         extract_with_prompt_local_llama loads response = Inr v)"
    by (cases "loads (py_slice response (str_find response (CHR ''{''))
                 (str_rfind response (CHR ''}'') + 1))")
      (simp_all add: extract_with_prompt_local_llama_def Let_def)
next
  assume "loads (fence_stripped response) = Inl JSONDecodeError"
  then show "extract_json_from_response loads response =
        (Inr PyNone, [JSON_decode_error_line JSONDecodeError])"
    by (simp add: extract_json_from_response_eq)
qed

theorem C2_parse_failure_keeps_text_witness:
  "extract_with_prompt json_loads ''hello'' =
     Inr (PyDict [(''error'', PyStr ''Could not parse JSON''), (''raw_response'', PyStr ''hello'')]) \<and>
   is_parse_failure
     (PyDict [(''error'', PyStr ''Could not parse JSON''), (''raw_response'', PyStr ''hello'')]) ''hello'' \<and>
   extract_json_from_response json_loads ''hello'' =
     (Inr PyNone, [JSON_decode_error_line JSONDecodeError])"
proof -
  note t = C2_parse_failure_keeps_text [of json_loads "''hello''"]
  have a: "json_loads (spec_candidate ''hello'') = Inl JSONDecodeError"
    by (simp add: hello_candidate hello_not_json)
  have b: "json_loads (fence_stripped ''hello'') = Inl JSONDecodeError"
    by (simp add: hello_fence_stripped hello_not_json)
  from t [THEN conjunct1] a have e: "extract_with_prompt json_loads ''hello'' =
     Inr (PyDict [(''error'', PyStr ''Could not parse JSON''), (''raw_response'', PyStr ''hello'')])"
    and p: "\<forall>v. extract_with_prompt json_loads ''hello'' = Inr v \<longrightarrow> is_parse_failure v ''hello''"
    by blast+
  from p e have "is_parse_failure
     (PyDict [(''error'', PyStr ''Could not parse JSON''), (''raw_response'', PyStr ''hello'')]) ''hello''"
    by blast
  moreover from t [THEN conjunct2, THEN conjunct2, THEN conjunct2] b
  have "extract_json_from_response json_loads ''hello'' =
     (Inr PyNone, [JSON_decode_error_line JSONDecodeError])"
    by blast
  ultimately show ?thesis
    using e by blast
qed

text \<open>
  The claim as stated fails on parse.py: \<^verbatim>\<open>hello\<close> has no brace and is not JSON, and the
  value returned is \<^verbatim>\<open>None\<close>, not a failure that carries the text.
\<close>

theorem C2_text_dropped_counterexample:
  "json_loads (spec_candidate (fence_stripped ''hello'')) = Inl JSONDecodeError \<and>
   fst (extract_json_from_response json_loads ''hello'') = Inr PyNone \<and>
   \<not> is_parse_failure PyNone ''hello''"
  by (simp add: hello_fence_stripped hello_candidate hello_not_json extract_json_from_response_eq
      is_parse_failure_def)




section \<open>A fenced JSON object in \<open>extract_json_from_response\<close>\<close>

















subsection \<open>What the first substitution leaves alone\<close>




subsection \<open>What the second substitution leaves alone\<close>









subsection \<open>A text of JSON tokens, segment by segment\<close>















end
